theory Spec2Isabelle
  imports Main "HOL-Library.Word" "HOL-Library.Sublist" "HOL-Library.AList"
begin

section \<open>JavaScript strings\<close>

text \<open>
  A JavaScript string is a sequence of UTF-16 code units. The string methods used by
  \<^verbatim>\<open>ProjectInput.tsx\<close> and \<^verbatim>\<open>geminiService.ts\<close> are translated one by one.
  \<^verbatim>\<open>String.prototype.toLowerCase\<close> is a table of the runtime, not of this repository:
  every function that calls it takes it as the parameter \<open>lc\<close>.
\<close>

type_synonym code_unit = "16 word"
type_synonym jstr = "code_unit list"

definition js :: "string \<Rightarrow> jstr" where
  \<comment> \<open>a string literal of the source, as code units\<close>
  "js s = map (\<lambda>c. of_nat (of_char c)) s"

definition NL :: code_unit where
  \<comment> \<open>the escape \<^verbatim>\<open>\n\<close>\<close>
  "NL = 10"

definition SLASH :: code_unit where
  "SLASH = 47"

definition BACKSLASH :: code_unit where
  "BACKSLASH = 92"

definition DOT :: code_unit where
  "DOT = 46"

definition QUOTE :: code_unit where
  \<comment> \<open>the single quote of the reason templates\<close>
  "QUOTE = 39"

definition startsWith :: "jstr \<Rightarrow> jstr \<Rightarrow> bool" where
  "startsWith s t = prefix t s"

definition endsWith :: "jstr \<Rightarrow> jstr \<Rightarrow> bool" where
  "endsWith s t = suffix t s"

definition includes_str :: "jstr \<Rightarrow> jstr \<Rightarrow> bool" where
  \<comment> \<open>\<^verbatim>\<open>s.includes(t)\<close>\<close>
  "includes_str s t = sublist t s"

definition lastIndexOf :: "jstr \<Rightarrow> code_unit \<Rightarrow> int" where
  \<comment> \<open>index of the last occurrence, \<open>-1\<close> when there is none\<close>
  "lastIndexOf s c =
     (if c \<in> set s
      then int (length s) - 1 - int (length (takeWhile (\<lambda>x. x \<noteq> c) (rev s)))
      else - 1)"

definition substring :: "jstr \<Rightarrow> int \<Rightarrow> jstr" where
  \<comment> \<open>\<^verbatim>\<open>s.substring(start)\<close>: a negative start counts as 0, a start beyond the end gives ""\<close>
  "substring s start = drop (nat start) s"

definition replaceBackslashes :: "jstr \<Rightarrow> jstr" where
  \<comment> \<open>\<^verbatim>\<open>filePath.replace(/\\/g, '/')\<close>\<close>
  "replaceBackslashes s = map (\<lambda>c. if c = BACKSLASH then SLASH else c) s"

function decimal :: "nat \<Rightarrow> jstr" where
  \<comment> \<open>how a template literal or \<^verbatim>\<open>toFixed(0)\<close> prints a non-negative integer\<close>
  "decimal n = (if n < 10 then [48 + of_nat n] else decimal (n div 10) @ [48 + of_nat (n mod 10)])"
  by pat_completeness auto
termination
  by (relation "measure (\<lambda>n. n)") auto

declare decimal.simps [simp del]

definition asciiLower :: "jstr \<Rightarrow> jstr" where
  \<comment> \<open>what \<^verbatim>\<open>toLowerCase\<close> does on a string of ASCII code units; used to run the model\<close>
  "asciiLower s = map (\<lambda>c. if 65 \<le> c \<and> c \<le> 90 then c + 32 else c) s"

section \<open>The file filter of ProjectInput.tsx\<close>

definition ALLOWED_EXTENSIONS_AND_FILENAMES :: "jstr list" where
  "ALLOWED_EXTENSIONS_AND_FILENAMES = map js
    [''.js'', ''.jsx'', ''.ts'', ''.tsx'', ''.mjs'', ''.cjs'',
     ''package.json'', ''tsconfig.json'', ''jsconfig.json'',
     ''.eslintrc.json'', ''.prettierrc.json'', ''.babelrc.json'',
     ''.html'', ''.htm'', ''.css'', ''.scss'', ''.sass'', ''.less'', ''.styl'',
     ''.py'', ''requirements.txt'', ''Pipfile'', ''pyproject.toml'', ''.python-version'',
     ''.java'', ''.kt'', ''.kts'', ''.scala'', ''.groovy'',
     ''pom.xml'', ''build.gradle'', ''build.gradle.kts'', ''settings.gradle'',
     ''.rb'', ''Gemfile'', ''Rakefile'', ''.ruby-version'',
     ''.php'', ''composer.json'',
     ''.go'', ''go.mod'', ''go.sum'',
     ''.rs'', ''Cargo.toml'', ''Cargo.lock'',
     ''.c'', ''.cpp'', ''.h'', ''.hpp'', ''Makefile'', ''CMakeLists.txt'',
     ''.swift'', ''.m'', ''.h'',
     ''.sh'', ''.bash'', ''.zsh'', ''Dockerfile'', ''docker-compose.yml'', ''.yml'', ''.yaml'', ''.json'',
     ''.xml'', ''.ini'', ''.toml'', ''.conf'', ''.cfg'', ''.properties'',
     ''.md'', ''.txt'', ''.rst'',
     ''.sql'',
     ''.wat'',
     ''.vue'', ''.svelte'',
     ''.gitignore'', ''.gitattributes'', ''.editorconfig'', ''LICENSE'', ''README'']"

definition IGNORED_PATTERNS :: "jstr list" where
  "IGNORED_PATTERNS = map js
    [''/.git/'',
     ''/node_modules/'',
     ''/venv/'', ''/.venv/'', ''/env/'', ''/.env/'',
     ''/__pycache__/'', ''/.pytest_cache/'', ''/.mypy_cache/'',
     ''/dist/'', ''/build/'', ''/out/'', ''/target/'', ''/bin/'',
     ''/.vscode/'', ''/.idea/'', ''/.project/'', ''/.classpath/'', ''/.settings/'',
     ''.DS_Store'', ''Thumbs.db'',
     ''*.log'',
     ''*.zip'', ''*.tar'', ''*.gz'', ''*.rar'', ''*.7z'',
     ''*.exe'', ''*.dll'', ''*.so'', ''*.o'', ''*.a'', ''*.lib'', ''*.class'', ''*.pyc'', ''*.pyo'', ''*.wasm'',
     ''*.png'', ''*.jpg'', ''*.jpeg'', ''*.gif'', ''*.bmp'', ''*.tiff'', ''*.ico'', ''*.webp'',
     ''*.mp3'', ''*.wav'', ''.ogg'', ''*.mp4'', ''*.mov'', ''*.avi'', ''*.webm'', ''*.flv'',
     ''*.pdf'', ''*.doc'', ''*.docx'', ''*.ppt'', ''*.pptx'', ''*.xls'', ''*.xlsx'',
     ''*.dmg'', ''*.iso'', ''*.img'',
     ''*.woff'', ''*.woff2'', ''*.ttf'', ''*.otf'', ''*.eot'',
     ''*.sqlite'', ''*.db'', ''*.mdb'',
     ''*.csv'',
     ''*.tmp'', ''*.temp'', ''*.swp'', ''*.swo'']"

definition MAX_FILE_SIZE_BYTES :: nat where
  "MAX_FILE_SIZE_BYTES = 2 * 1024 * 1024"

definition MAX_TOTAL_FILES :: nat where
  "MAX_TOTAL_FILES = 500"

definition roundMB :: "nat \<Rightarrow> nat" where
  \<comment> \<open>\<^verbatim>\<open>Math.round(n / (1024*1024))\<close>: the quotient by a power of two is exact in a
      double, and \<^verbatim>\<open>Math.round\<close> takes a half upwards\<close>
  "roundMB n = (n + 524288) div 1048576"

definition matchesPattern :: "(jstr \<Rightarrow> jstr) \<Rightarrow> jstr \<Rightarrow> jstr \<Rightarrow> bool" where
  "matchesPattern lc path pattern =
     (if startsWith pattern (js ''/'') \<and> endsWith pattern (js ''/'')
      then includes_str (js ''/'' @ path @ js ''/'') pattern
      else if startsWith pattern (js ''*.'')
      then endsWith (lc path) (lc (substring pattern 1))
      else endsWith (lc path) (lc pattern))"

record ignore_decision =
  ignore :: bool
  reason :: "jstr option"

definition BARE_FILENAME :: "jstr \<Rightarrow> jstr" where
  "BARE_FILENAME normalizedFilePath =
     (if includes_str normalizedFilePath (js ''/'')
      then substring normalizedFilePath (lastIndexOf normalizedFilePath SLASH + 1)
      else normalizedFilePath)"

definition EXTENSION :: "(jstr \<Rightarrow> jstr) \<Rightarrow> jstr \<Rightarrow> jstr" where
  "EXTENSION lc bare =
     (if includes_str bare (js ''.'')
      then lc (substring bare (lastIndexOf bare DOT))
      else [])"

definition allowListCheck :: "(jstr \<Rightarrow> jstr) \<Rightarrow> jstr list \<Rightarrow> jstr \<Rightarrow> ignore_decision" where
  \<comment> \<open>lines 118 to 134 of \<^verbatim>\<open>shouldIgnoreFile\<close>; a string is falsy exactly when it is empty\<close>
  "allowListCheck lc allowed normalizedFilePath =
     (let bare = BARE_FILENAME normalizedFilePath;
          ext = EXTENSION lc bare
      in if bare \<in> set allowed \<or> ext \<in> set allowed
         then \<lparr>ignore = False, reason = None\<rparr>
         else if ext = [] \<and> bare \<notin> set allowed
         then \<lparr>ignore = True,
               reason = Some (js ''No extension and '' @ [QUOTE] @ bare @ [QUOTE]
                              @ js '' not in allowed filenames list'')\<rparr>
         else if ext \<noteq> [] \<and> ext \<notin> set allowed
         then \<lparr>ignore = True,
               reason = Some (js ''Extension '' @ [QUOTE] @ ext @ [QUOTE]
                              @ js '' not in allowed list'')\<rparr>
         else \<lparr>ignore = False, reason = None\<rparr>)"

definition shouldIgnoreFileWith ::
  "(jstr \<Rightarrow> jstr) \<Rightarrow> jstr list \<Rightarrow> jstr list \<Rightarrow> jstr \<Rightarrow> nat \<Rightarrow> ignore_decision" where
  \<comment> \<open>\<^verbatim>\<open>shouldIgnoreFile\<close> with the two module constants as arguments\<close>
  "shouldIgnoreFileWith lc ignored allowed filePath fileSize =
     (let normalizedFilePath = replaceBackslashes filePath
      in if fileSize > MAX_FILE_SIZE_BYTES
         then \<lparr>ignore = True,
               reason = Some (js ''File size '' @ decimal (roundMB fileSize) @ js ''MB > ''
                              @ decimal (roundMB MAX_FILE_SIZE_BYTES) @ js ''MB limit'')\<rparr>
         else case find (matchesPattern lc normalizedFilePath) ignored of
                Some pattern \<Rightarrow>
                  \<lparr>ignore = True, reason = Some (js ''Matches ignore pattern: '' @ pattern)\<rparr>
              | None \<Rightarrow> allowListCheck lc allowed normalizedFilePath)"

definition shouldIgnoreFile :: "(jstr \<Rightarrow> jstr) \<Rightarrow> jstr \<Rightarrow> nat \<Rightarrow> ignore_decision" where
  "shouldIgnoreFile lc filePath fileSize =
     shouldIgnoreFileWith lc IGNORED_PATTERNS ALLOWED_EXTENSIONS_AND_FILENAMES filePath fileSize"

subsection \<open>The selection handler\<close>

text \<open>
  A browser \<^verbatim>\<open>File\<close>, as far as \<^verbatim>\<open>handleFileChange\<close> reads it. \<open>file_text\<close> is the
  outcome of \<^verbatim>\<open>await file.text()\<close>: \<open>None\<close> when the promise rejects, which it does when
  the file cannot be read. Bytes that are not UTF-8 do not make it reject: the text then
  holds U+FFFD in place of what could not be decoded.
\<close>

record html_file =
  file_name :: jstr
  file_webkitRelativePath :: jstr
  file_size :: nat
  file_text :: "jstr option"

record ProjectFile =
  path :: jstr
  content :: jstr

record loop_state =
  projectFiles :: "ProjectFile list"
  processedFileCount :: nat
  skippedFileCount :: nat
  skippedReasons :: "(jstr \<times> nat) list"

definition countReason :: "jstr \<Rightarrow> (jstr \<times> nat) list \<Rightarrow> (jstr \<times> nat) list" where
  \<comment> \<open>\<^verbatim>\<open>skippedReasons[reason] = (skippedReasons[reason] || 0) + 1\<close>; the keys of the
      object stay in insertion order, and no reason text is the name of a property that an
      empty object inherits\<close>
  "countReason r m = AList.update r ((case map_of m r of Some n \<Rightarrow> n | None \<Rightarrow> 0) + 1) m"

definition filePathOf :: "html_file \<Rightarrow> jstr" where
  \<comment> \<open>\<^verbatim>\<open>file.webkitRelativePath || file.name\<close>\<close>
  "filePathOf file =
     (if file_webkitRelativePath file \<noteq> [] then file_webkitRelativePath file else file_name file)"

definition initialLoopState :: loop_state where
  "initialLoopState =
     \<lparr>projectFiles = [], processedFileCount = 0, skippedFileCount = 0, skippedReasons = []\<rparr>"

definition processFile :: "(jstr \<Rightarrow> jstr) \<Rightarrow> loop_state \<Rightarrow> html_file \<Rightarrow> loop_state" where
  \<comment> \<open>one round of the \<^verbatim>\<open>for\<close> loop of \<^verbatim>\<open>handleFileChange\<close>\<close>
  "processFile lc st file =
     (let filePath = filePathOf file;
          d = shouldIgnoreFile lc filePath (file_size file)
      in if ignore d
         then st\<lparr>skippedFileCount := skippedFileCount st + 1,
                 skippedReasons :=
                   (case reason d of
                      Some r \<Rightarrow> if r \<noteq> [] then countReason r (skippedReasons st)
                                else skippedReasons st
                    | None \<Rightarrow> skippedReasons st)\<rparr>
         else case file_text file of
                Some text \<Rightarrow>
                  st\<lparr>projectFiles := projectFiles st @ [\<lparr>path = filePath, content = text\<rparr>],
                     processedFileCount := processedFileCount st + 1\<rparr>
              | None \<Rightarrow>
                  st\<lparr>skippedFileCount := skippedFileCount st + 1,
                     skippedReasons :=
                       countReason (js ''Could not read as text (binary?)'') (skippedReasons st)\<rparr>)"

fun processFiles :: "(jstr \<Rightarrow> jstr) \<Rightarrow> html_file list \<Rightarrow> loop_state \<Rightarrow> loop_state" where
  "processFiles lc [] st = st"
| "processFiles lc (file # files) st = processFiles lc files (processFile lc st file)"

text \<open>
  What one run of \<^verbatim>\<open>handleFileChange\<close> leaves behind: the two arguments of
  \<^verbatim>\<open>onFilesSelected\<close>, the component state, the counters and the reason table of the
  loop, and the \<^verbatim>\<open>console.warn\<close> line about a truncated selection. (The
  \<^verbatim>\<open>console.error\<close> of an unreadable file and the \<^verbatim>\<open>console.warn\<close> that prints the
  reason table print objects and are left out.)
\<close>

record handler_result =
  selectedFiles :: "ProjectFile list"
  selectedFolder :: "jstr option"
  fileSummary :: jstr
  errorText :: "jstr option"
  consoleWarn :: "jstr list"
  loopState :: loop_state

definition handleFileChange :: "(jstr \<Rightarrow> jstr) \<Rightarrow> html_file list option \<Rightarrow> handler_result" where
  "handleFileChange lc target_files =
     (case target_files of
        None \<Rightarrow>
          \<lparr>selectedFiles = [], selectedFolder = None, fileSummary = [], errorText = None,
           consoleWarn = [], loopState = initialLoopState\<rparr>
      | Some htmlFiles \<Rightarrow>
          if length htmlFiles = 0
          then \<lparr>selectedFiles = [], selectedFolder = None, fileSummary = [], errorText = None,
                consoleWarn = [], loopState = initialLoopState\<rparr>
          else
            let first = hd htmlFiles;
                folderName =
                  (if file_webkitRelativePath first \<noteq> []
                   then takeWhile (\<lambda>c. c \<noteq> SLASH) (file_webkitRelativePath first)
                   else js ''Selected_Files'');
                filesToProcess = take MAX_TOTAL_FILES htmlFiles;
                tooMany = (length htmlFiles > MAX_TOTAL_FILES);
                st = processFiles lc filesToProcess initialLoopState;
                summary =
                  decimal (processedFileCount st) @ js '' file(s) collected.''
                  @ (if skippedFileCount st > 0
                     then js '' '' @ decimal (skippedFileCount st) @ js '' file(s) skipped.''
                     else [])
            in \<lparr>selectedFiles = projectFiles st,
                selectedFolder = Some folderName,
                fileSummary = summary,
                errorText =
                  (if length (projectFiles st) = 0 \<and> length filesToProcess > 0
                   then Some (js ''No reviewable files found. Check file types or ignored patterns.'')
                   else if length (projectFiles st) = 0 \<and> length filesToProcess = 0
                   then Some (js ''No files selected or folder is empty.'')
                   else if tooMany
                   then Some (js ''Processing the first '' @ decimal MAX_TOTAL_FILES
                              @ js '' files out of '' @ decimal (length htmlFiles)
                              @ js ''. Some files were ignored.'')
                   else None),
                consoleWarn =
                  (if tooMany
                   then [js ''Too many files selected ('' @ decimal (length htmlFiles)
                         @ js ''). Processing the first '' @ decimal MAX_TOTAL_FILES @ js ''.'']
                   else []),
                loopState = st\<rparr>)"

section \<open>The review request of geminiService.ts\<close>

definition fileBlock :: "ProjectFile \<Rightarrow> jstr" where
  \<comment> \<open>the template literal mapped over \<^verbatim>\<open>files\<close>\<close>
  "fileBlock file =
     js ''--- File Path: '' @ path file @ js '' ---'' @ [NL]
     @ js ''```'' @ [NL]
     @ content file @ [NL]
     @ js ''```'' @ [NL]
     @ js ''--- End of File: '' @ path file @ js '' ---'' @ [NL, NL]"

definition combinedContent :: "jstr \<Rightarrow> ProjectFile list \<Rightarrow> jstr" where
  "combinedContent projectName files =
     js ''Project Name: '' @ projectName @ [NL, NL] @ concat (map fileBlock files)"

fun utf8Length :: "jstr \<Rightarrow> nat" where
  \<comment> \<open>\<^verbatim>\<open>new TextEncoder().encode(s).length\<close>: a surrogate pair takes four bytes, a lone
      surrogate is replaced by U+FFFD, which takes three\<close>
  "utf8Length [] = 0"
| "utf8Length (u # us) =
     (if u < 0x80 then 1 + utf8Length us
      else if u < 0x800 then 2 + utf8Length us
      else if 0xD800 \<le> u \<and> u \<le> 0xDBFF
      then (case us of
              [] \<Rightarrow> 3
            | v # vs \<Rightarrow> if 0xDC00 \<le> v \<and> v \<le> 0xDFFF then 4 + utf8Length vs
                        else 3 + utf8Length us)
      else 3 + utf8Length us)"

definition MAX_CONTENT_LENGTH_BYTES :: nat where
  "MAX_CONTENT_LENGTH_BYTES = 3800000"

definition toFixedKB :: "nat \<Rightarrow> jstr" where
  \<comment> \<open>\<^verbatim>\<open>(n / 1024).toFixed(0)\<close>: the quotient is exact in a double, and \<^verbatim>\<open>toFixed\<close> takes the
      larger of two equally near integers\<close>
  "toFixedKB n = decimal ((n + 512) div 1024)"

text \<open>
  The service is outside the repository: \<^verbatim>\<open>ai.models.generateContent\<close> is a parameter that
  maps the request contents to what the awaited call does. The model name and the system
  instruction are constants of the request and are not part of the model.
\<close>

datatype thrown = ErrorObject jstr | OtherValue

datatype service_outcome = Responds jstr | Rejects thrown

record review_outcome =
  outcome :: "jstr + jstr"
  requests :: "jstr list"

definition classifyFailure :: "(jstr \<Rightarrow> jstr) \<Rightarrow> thrown \<Rightarrow> jstr" where
  \<comment> \<open>the \<^verbatim>\<open>catch\<close> block: the message of the \<^verbatim>\<open>Error\<close> it throws\<close>
  "classifyFailure lc e =
     (case e of
        ErrorObject message \<Rightarrow>
          if includes_str message (js ''API key not valid'')
          then js ''Invalid Gemini API Key. Please check your API_KEY environment variable.''
          else if (includes_str message (js ''400'') \<or> includes_str (lc message) (js ''bad request''))
                  \<and> (includes_str (lc message) (js ''payload size'')
                       \<or> includes_str (lc message) (js ''request entity too large''))
          then js ''The project is too large to be processed by the API. Please try with a smaller selection of files.''
          else js ''Failed to get project review feedback: '' @ message
      | OtherValue \<Rightarrow> js ''An unknown error occurred while fetching project review feedback.'')"

definition getProjectReviewFeedback ::
  "(jstr \<Rightarrow> jstr) \<Rightarrow> jstr option \<Rightarrow> (jstr \<Rightarrow> service_outcome) \<Rightarrow> ProjectFile list \<Rightarrow> jstr
   \<Rightarrow> review_outcome" where
  \<comment> \<open>\<open>outcome\<close> is \<open>Inl\<close> the message of the thrown \<^verbatim>\<open>Error\<close> or \<open>Inr\<close> the text returned;
      \<open>requests\<close> lists the contents of the calls made to the service\<close>
  "getProjectReviewFeedback lc API_KEY generateContent files projectName =
     (if API_KEY = None \<or> API_KEY = Some []
      then \<lparr>outcome = Inl (js ''Gemini API key is not configured. Please set the API_KEY environment variable.''),
            requests = []\<rparr>
      else if length files = 0
      then \<lparr>outcome = Inl (js ''No files were provided for review. Please select a project with reviewable files.''),
            requests = []\<rparr>
      else
        let blob = combinedContent projectName files;
            currentContentLength = utf8Length blob
        in if currentContentLength > MAX_CONTENT_LENGTH_BYTES
           then \<lparr>outcome = Inl (js ''The project content ('' @ toFixedKB currentContentLength
                               @ js '' KB) is too large and exceeds the processing limit of ''
                               @ toFixedKB MAX_CONTENT_LENGTH_BYTES @ js '' KB. ''
                               @ js ''Please try with a smaller project or select fewer files.''),
                 requests = []\<rparr>
           else case generateContent blob of
                  Responds text \<Rightarrow> \<lparr>outcome = Inr text, requests = [blob]\<rparr>
                | Rejects e \<Rightarrow> \<lparr>outcome = Inl (classifyFailure lc e), requests = [blob]\<rparr>)"

section \<open>Auxiliary notions for the statements\<close>

definition echoService :: "jstr \<Rightarrow> service_outcome" where
  \<comment> \<open>a service that answers every request with the request itself; used to run the model\<close>
  "echoService contents = Responds contents"

definition asciiFile :: "nat \<Rightarrow> ProjectFile" where
  \<comment> \<open>a file \<^verbatim>\<open>a\<close> holding \<open>n\<close> letters \<^verbatim>\<open>a\<close>; used to run the model on large inputs\<close>
  "asciiFile n = \<lparr>path = js ''a'', content = replicate n 97\<rparr>"

definition acceptedFile :: "(jstr \<Rightarrow> jstr) \<Rightarrow> html_file \<Rightarrow> ProjectFile option" where
  \<comment> \<open>what one round of the loop pushes to \<^verbatim>\<open>projectFiles\<close>, if anything\<close>
  "acceptedFile lc file =
     (if ignore (shouldIgnoreFile lc (filePathOf file) (file_size file)) then None
      else case file_text file of
             None \<Rightarrow> None
           | Some text \<Rightarrow> Some \<lparr>path = filePathOf file, content = text\<rparr>)"

definition scenarioFiles :: "html_file list" where
  \<comment> \<open>a selection of three readable files: a source file, a dependency, a README\<close>
  "scenarioFiles =
     [\<lparr>file_name = js ''a.ts'', file_webkitRelativePath = js ''src/a.ts'', file_size = 120,
       file_text = Some (js ''export {}'')\<rparr>,
      \<lparr>file_name = js ''y.js'', file_webkitRelativePath = js ''node_modules/x/y.js'', file_size = 50,
       file_text = Some (js ''module.exports = 1'')\<rparr>,
      \<lparr>file_name = js ''README'', file_webkitRelativePath = [], file_size = 30,
       file_text = Some (js ''Read me first.'')\<rparr>]"

definition unreadableFile :: html_file where
  \<comment> \<open>a README whose \<^verbatim>\<open>text()\<close> promise rejects\<close>
  "unreadableFile =
     \<lparr>file_name = js ''README'', file_webkitRelativePath = [], file_size = 30, file_text = None\<rparr>"

definition undecodableFile :: html_file where
  \<comment> \<open>a README of the three bytes \<^verbatim>\<open>ff fe 41\<close>, which are not UTF-8: \<^verbatim>\<open>text()\<close> puts U+FFFD
      for each byte that it cannot decode and is fulfilled\<close>
  "undecodableFile =
     \<lparr>file_name = js ''README'', file_webkitRelativePath = [], file_size = 3,
      file_text = Some [0xFFFD, 0xFFFD, 0x41]\<rparr>"

definition manyFiles :: "nat \<Rightarrow> html_file list" where
  \<comment> \<open>a selection of \<open>n\<close> files\<close>
  "manyFiles n = replicate n unreadableFile"

fun linesOf :: "jstr \<Rightarrow> jstr list" where
  \<comment> \<open>the lines of a text, split at every line break\<close>
  "linesOf [] = [[]]"
| "linesOf (c # cs) =
     (if c = NL then [] # linesOf cs
      else (c # hd (linesOf cs)) # tl (linesOf cs))"

definition closingLine :: "jstr \<Rightarrow> jstr" where
  \<comment> \<open>the closing delimiter line that \<open>fileBlock\<close> writes for a path\<close>
  "closingLine p = js ''--- End of File: '' @ p @ js '' ---''"

definition framable :: "ProjectFile \<Rightarrow> bool" where
  \<comment> \<open>the path is a single line, and no line of the content is the closing delimiter of
      the file itself\<close>
  "framable file =
     (NL \<notin> set (path file) \<and> closingLine (path file) \<notin> set (linesOf (content file)))"

definition openingLine :: "jstr \<Rightarrow> jstr" where
  \<comment> \<open>the opening delimiter line that \<open>fileBlock\<close> writes for a path\<close>
  "openingLine p = js ''--- File Path: '' @ p @ js '' ---''"

definition embeddedBoundary :: jstr where
  \<comment> \<open>the text that \<open>combinedContent\<close> puts between the content of \<^verbatim>\<open>a.txt\<close> and the
      content of \<^verbatim>\<open>b.txt\<close>\<close>
  "embeddedBoundary =
     [NL] @ js ''```'' @ [NL] @ js ''--- End of File: a.txt ---'' @ [NL, NL]
     @ js ''--- File Path: b.txt ---'' @ [NL] @ js ''```'' @ [NL]"

section \<open>Properties of the file filter\<close>

lemma decimal_digit: "n < 10 \<Longrightarrow> decimal n = [48 + of_nat n]"
  by (simp add: decimal.simps)

lemma decimal_limit_MB: "decimal (roundMB MAX_FILE_SIZE_BYTES) = js ''2''"
  by (simp add: roundMB_def MAX_FILE_SIZE_BYTES_def decimal_digit js_def)

lemma oversize_decision:
  "MAX_FILE_SIZE_BYTES < fileSize \<Longrightarrow>
   shouldIgnoreFileWith lc ignored allowed filePath fileSize =
     \<lparr>ignore = True,
      reason = Some (js ''File size '' @ decimal (roundMB fileSize) @ js ''MB > 2MB limit'')\<rparr>"
  by (simp add: shouldIgnoreFileWith_def decimal_limit_MB js_def)

lemma three_MiB: "MAX_FILE_SIZE_BYTES < 3145728 \<and> decimal (roundMB 3145728) = js ''3''"
  by (simp add: MAX_FILE_SIZE_BYTES_def roundMB_def decimal_digit js_def)

text \<open>
  C1. A file of more than 2 MiB (\<open>2 * 1024 * 1024\<close> bytes) is skipped with the size
  reason, and that reason is the whole answer: the decision is the same for every path,
  every list of ignore patterns, every allow-list and every lower-casing function, so
  neither list is consulted for such a file. In the loop such a file adds one to the skip
  counter and one to the count of the size reason, and nothing else.
\<close>

theorem size_cap_takes_precedence:
  assumes "MAX_FILE_SIZE_BYTES < fileSize"
  shows "shouldIgnoreFileWith lc ignored allowed filePath fileSize =
           \<lparr>ignore = True,
            reason = Some (js ''File size '' @ decimal (roundMB fileSize) @ js ''MB > 2MB limit'')\<rparr>
    \<and> shouldIgnoreFile lc filePath fileSize =
           \<lparr>ignore = True,
            reason = Some (js ''File size '' @ decimal (roundMB fileSize) @ js ''MB > 2MB limit'')\<rparr>
    \<and> (file_size file = fileSize \<longrightarrow>
         processFile lc st file =
           st\<lparr>skippedFileCount := skippedFileCount st + 1,
              skippedReasons :=
                countReason (js ''File size '' @ decimal (roundMB fileSize) @ js ''MB > 2MB limit'')
                  (skippedReasons st)\<rparr>)"
proof -
  have with_lists: "shouldIgnoreFileWith lc ignored' allowed' filePath' fileSize =
           \<lparr>ignore = True,
            reason = Some (js ''File size '' @ decimal (roundMB fileSize) @ js ''MB > 2MB limit'')\<rparr>"
    for ignored' allowed' filePath'
    using assms by (rule oversize_decision)
  then have decision: "shouldIgnoreFile lc filePath' fileSize =
           \<lparr>ignore = True,
            reason = Some (js ''File size '' @ decimal (roundMB fileSize) @ js ''MB > 2MB limit'')\<rparr>"
    for filePath'
    by (simp add: shouldIgnoreFile_def)
  have "js ''File size '' @ decimal (roundMB fileSize) @ js ''MB > 2MB limit'' \<noteq> []"
    by (simp add: js_def)
  with decision have "processFile lc st file =
           st\<lparr>skippedFileCount := skippedFileCount st + 1,
              skippedReasons :=
                countReason (js ''File size '' @ decimal (roundMB fileSize) @ js ''MB > 2MB limit'')
                  (skippedReasons st)\<rparr>"
    if "file_size file = fileSize"
    using that by (simp add: processFile_def Let_def)
  with with_lists decision show ?thesis
    by blast
qed

theorem size_cap_takes_precedence_witness:
  "MAX_FILE_SIZE_BYTES < 3145728
   \<and> shouldIgnoreFile asciiLower (js ''node_modules/big.png'') 3145728 =
       \<lparr>ignore = True, reason = Some (js ''File size 3MB > 2MB limit'')\<rparr>
   \<and> shouldIgnoreFileWith asciiLower [] [] (js ''README'') 3145728 =
       \<lparr>ignore = True, reason = Some (js ''File size 3MB > 2MB limit'')\<rparr>"
proof -
  have big: "MAX_FILE_SIZE_BYTES < 3145728" and three: "decimal (roundMB 3145728) = js ''3''"
    using three_MiB by simp_all
  note readme = size_cap_takes_precedence
                  [OF big, of asciiLower "[]" "[]" "js ''README''", THEN conjunct1]
  note png = size_cap_takes_precedence
               [OF big, of asciiLower "[]" "[]" "js ''node_modules/big.png''",
                THEN conjunct2, THEN conjunct1]
  from readme png big three show ?thesis
    by (simp add: js_def)
qed

lemma includes_str_wrap: "includes_str s t \<Longrightarrow> includes_str (a @ s @ b) t"
proof -
  assume "includes_str s t"
  then obtain ps ss where "s = ps @ t @ ss"
    by (auto simp: includes_str_def sublist_def)
  then have "a @ s @ b = (a @ ps) @ t @ (ss @ b)"
    by simp
  then show ?thesis
    unfolding includes_str_def sublist_def by blast
qed

lemma directory_pattern:
  "matchesPattern lc p (SLASH # name @ [SLASH]) = includes_str (js ''/'' @ p @ js ''/'') (SLASH # name @ [SLASH])"
  by (simp add: matchesPattern_def startsWith_def endsWith_def js_def SLASH_def suffix_def)

lemma git_is_directory_pattern: "js ''/.git/'' = SLASH # js ''.git'' @ [SLASH]"
  by (simp add: js_def SLASH_def)

lemma node_modules_is_directory_pattern: "js ''/node_modules/'' = SLASH # js ''node_modules'' @ [SLASH]"
  by (simp add: js_def SLASH_def)

lemma IGNORED_PATTERNS_head:
  "\<exists>rest. IGNORED_PATTERNS = js ''/.git/'' # js ''/node_modules/'' # rest"
  by (simp add: IGNORED_PATTERNS_def)

text \<open>
  C2, as amended. A file of at most 2 MiB whose normalized path contains \<^verbatim>\<open>/node_modules/\<close>
  (or whose slash-wrapped normalized path does, which is what the loop tests and is implied
  by the former) is skipped with the reason \<^verbatim>\<open>Matches ignore pattern: \<close> followed by the first
  pattern of the list that matches: \<^verbatim>\<open>/.git/\<close> when the wrapped path contains it too,
  \<^verbatim>\<open>/node_modules/\<close> otherwise.
\<close>

theorem node_modules_ignored_within_size_cap:
  assumes "fileSize \<le> MAX_FILE_SIZE_BYTES"
    and "includes_str (replaceBackslashes filePath) (js ''/node_modules/'')
         \<or> includes_str (js ''/'' @ replaceBackslashes filePath @ js ''/'') (js ''/node_modules/'')"
  shows "shouldIgnoreFile lc filePath fileSize =
           \<lparr>ignore = True,
            reason = Some (js ''Matches ignore pattern: ''
                           @ (if includes_str (js ''/'' @ replaceBackslashes filePath @ js ''/'') (js ''/.git/'')
                              then js ''/.git/'' else js ''/node_modules/''))\<rparr>"
proof -
  let ?np = "replaceBackslashes filePath"
  have wrapped: "includes_str (js ''/'' @ ?np @ js ''/'') (js ''/node_modules/'')"
    using assms(2) includes_str_wrap by blast
  have nm: "matchesPattern lc ?np (js ''/node_modules/'')"
    using wrapped directory_pattern [of lc ?np "js ''node_modules''"]
    by (simp only: node_modules_is_directory_pattern)
  have git: "matchesPattern lc ?np (js ''/.git/'')
             = includes_str (js ''/'' @ ?np @ js ''/'') (js ''/.git/'')"
    using directory_pattern [of lc ?np "js ''.git''"]
    by (simp only: git_is_directory_pattern)
  obtain rest where pats: "IGNORED_PATTERNS = js ''/.git/'' # js ''/node_modules/'' # rest"
    using IGNORED_PATTERNS_head by blast
  have "find (matchesPattern lc ?np) IGNORED_PATTERNS =
          Some (if includes_str (js ''/'' @ ?np @ js ''/'') (js ''/.git/'')
                then js ''/.git/'' else js ''/node_modules/'')"
    by (simp add: pats nm git)
  then show ?thesis
    using assms(1) by (simp add: shouldIgnoreFile_def shouldIgnoreFileWith_def)
qed

theorem node_modules_ignored_within_size_cap_witness:
  "100 \<le> MAX_FILE_SIZE_BYTES
   \<and> includes_str (replaceBackslashes (js ''a/node_modules/x.js'')) (js ''/node_modules/'')
   \<and> shouldIgnoreFile asciiLower (js ''a/node_modules/x.js'') 100 =
       \<lparr>ignore = True, reason = Some (js ''Matches ignore pattern: /node_modules/'')\<rparr>"
proof -
  have small: "100 \<le> MAX_FILE_SIZE_BYTES"
    by (simp add: MAX_FILE_SIZE_BYTES_def)
  have inside: "includes_str (replaceBackslashes (js ''a/node_modules/x.js'')) (js ''/node_modules/'')"
    by (simp add: includes_str_def replaceBackslashes_def js_def BACKSLASH_def SLASH_def sublist_code(3))
  have nogit: "\<not> includes_str (js ''/'' @ replaceBackslashes (js ''a/node_modules/x.js'') @ js ''/'') (js ''/.git/'')"
    by (simp add: includes_str_def replaceBackslashes_def js_def BACKSLASH_def SLASH_def sublist_code(3))
  show ?thesis
    using node_modules_ignored_within_size_cap [OF small disjI1 [OF inside], of asciiLower]
          small inside nogit
    by (simp add: js_def)
qed

text \<open>
  C2 as stated does not hold for every descriptor: the size test comes first, so a file of
  3 MiB under \<^verbatim>\<open>node_modules\<close> is skipped with the size reason.
\<close>

theorem node_modules_oversize_counterexample:
  "includes_str (replaceBackslashes (js ''a/node_modules/x.js'')) (js ''/node_modules/'')
   \<and> shouldIgnoreFile asciiLower (js ''a/node_modules/x.js'') 3145728 =
       \<lparr>ignore = True, reason = Some (js ''File size 3MB > 2MB limit'')\<rparr>"
proof -
  have inside: "includes_str (replaceBackslashes (js ''a/node_modules/x.js'')) (js ''/node_modules/'')"
    by (simp add: includes_str_def replaceBackslashes_def js_def BACKSLASH_def SLASH_def sublist_code(3))
  show ?thesis
    using inside three_MiB oversize_decision [of 3145728 asciiLower]
    by (simp add: shouldIgnoreFile_def js_def)
qed

lemma includes_str_single: "includes_str s [c] \<longleftrightarrow> c \<in> set s"
proof
  assume "includes_str s [c]"
  then obtain ps ss where "s = ps @ [c] @ ss"
    by (auto simp: includes_str_def sublist_def)
  then show "c \<in> set s" by simp
next
  assume "c \<in> set s"
  then obtain ps ss where "s = ps @ c # ss"
    by (meson split_list)
  then have "s = ps @ [c] @ ss" by simp
  then show "includes_str s [c]"
    unfolding includes_str_def sublist_def by blast
qed

lemma lastIndexOf_append:
  assumes "c \<notin> set b"
  shows "lastIndexOf (d @ c # b) c = int (length d)"
proof -
  have "takeWhile (\<lambda>x. x \<noteq> c) (rev b @ c # rev d) = rev b"
    using assms by (auto simp: takeWhile_tail)
  then show ?thesis
    by (simp add: lastIndexOf_def)
qed

lemma BARE_FILENAME_plain: "SLASH \<notin> set b \<Longrightarrow> BARE_FILENAME b = b"
  by (simp add: BARE_FILENAME_def js_def includes_str_single SLASH_def)

lemma BARE_FILENAME_dir: "SLASH \<notin> set b \<Longrightarrow> BARE_FILENAME (d @ SLASH # b) = b"
proof -
  assume b: "SLASH \<notin> set b"
  have "js ''/'' = [SLASH]"
    by (simp add: js_def SLASH_def)
  then have "includes_str (d @ SLASH # b) (js ''/'')"
    by (simp add: includes_str_single)
  moreover have "nat (int (length d) + 1) = Suc (length d)"
    by simp
  ultimately show ?thesis
    using lastIndexOf_append [OF b, of d]
    by (simp add: BARE_FILENAME_def substring_def)
qed

lemma EXTENSION_none: "DOT \<notin> set b \<Longrightarrow> EXTENSION lc b = []"
  by (simp add: EXTENSION_def js_def includes_str_single DOT_def)

lemma EXTENSION_last_dot: "DOT \<notin> set e \<Longrightarrow> EXTENSION lc (stem @ DOT # e) = lc (DOT # e)"
proof -
  assume e: "DOT \<notin> set e"
  have "js ''.'' = [DOT]"
    by (simp add: js_def DOT_def)
  then have "includes_str (stem @ DOT # e) (js ''.'')"
    by (simp add: includes_str_single)
  then show ?thesis
    using lastIndexOf_append [OF e, of stem]
    by (simp add: EXTENSION_def substring_def)
qed

lemma README_allowed: "js ''README'' \<in> set ALLOWED_EXTENSIONS_AND_FILENAMES"
  by (simp add: ALLOWED_EXTENSIONS_AND_FILENAMES_def)

lemma NOTES_not_allowed: "js ''NOTES'' \<notin> set ALLOWED_EXTENSIONS_AND_FILENAMES"
  by (simp add: ALLOWED_EXTENSIONS_AND_FILENAMES_def js_def)

lemma empty_not_allowed: "[] \<notin> set ALLOWED_EXTENSIONS_AND_FILENAMES"
  by (simp add: ALLOWED_EXTENSIONS_AND_FILENAMES_def js_def)

lemma NOTES_no_dot: "DOT \<notin> set (js ''NOTES'')"
  by (simp add: js_def DOT_def)

lemma allowListCheck_cases:
  "allowListCheck lc allowed np =
     (if BARE_FILENAME np \<in> set allowed \<or> EXTENSION lc (BARE_FILENAME np) \<in> set allowed
      then \<lparr>ignore = False, reason = None\<rparr>
      else if EXTENSION lc (BARE_FILENAME np) = []
      then \<lparr>ignore = True,
            reason = Some (js ''No extension and '' @ [QUOTE] @ BARE_FILENAME np @ [QUOTE]
                           @ js '' not in allowed filenames list'')\<rparr>
      else \<lparr>ignore = True,
            reason = Some (js ''Extension '' @ [QUOTE] @ EXTENSION lc (BARE_FILENAME np) @ [QUOTE]
                           @ js '' not in allowed list'')\<rparr>)"
  by (simp add: allowListCheck_def Let_def)

text \<open>
  C6, as amended. The allow-list check (the last stage of \<^verbatim>\<open>shouldIgnoreFile\<close>, reached by
  a file within the size cap that no ignore pattern matches) takes the bare filename after
  the last \<^verbatim>\<open>/\<close> and the lower-cased extension from the last \<^verbatim>\<open>.\<close> of the bare filename
  (empty when there is no dot). It accepts when either is an entry of the allow-list; when
  neither is, it skips with the no-extension reason if the extension is empty and with the
  extension reason otherwise. So \<^verbatim>\<open>README\<close> is accepted and \<^verbatim>\<open>NOTES\<close> is skipped as
  extensionless, in any directory.
\<close>

theorem allow_list_check:
  assumes "SLASH \<notin> set bare" and "np = bare \<or> np = dir @ SLASH # bare"
  shows "(fileSize \<le> MAX_FILE_SIZE_BYTES \<and> replaceBackslashes filePath = np
          \<and> find (matchesPattern lc np) IGNORED_PATTERNS = None \<longrightarrow>
          shouldIgnoreFile lc filePath fileSize =
            allowListCheck lc ALLOWED_EXTENSIONS_AND_FILENAMES np)
    \<and> BARE_FILENAME np = bare
    \<and> (DOT \<notin> set bare \<longrightarrow> EXTENSION lc bare = [])
    \<and> (\<forall>stem e. bare = stem @ DOT # e \<and> DOT \<notin> set e \<longrightarrow> EXTENSION lc bare = lc (DOT # e))
    \<and> allowListCheck lc ALLOWED_EXTENSIONS_AND_FILENAMES np =
        (if bare \<in> set ALLOWED_EXTENSIONS_AND_FILENAMES
            \<or> EXTENSION lc bare \<in> set ALLOWED_EXTENSIONS_AND_FILENAMES
         then \<lparr>ignore = False, reason = None\<rparr>
         else if EXTENSION lc bare = []
         then \<lparr>ignore = True,
               reason = Some (js ''No extension and '' @ [QUOTE] @ bare @ [QUOTE]
                              @ js '' not in allowed filenames list'')\<rparr>
         else \<lparr>ignore = True,
               reason = Some (js ''Extension '' @ [QUOTE] @ EXTENSION lc bare @ [QUOTE]
                              @ js '' not in allowed list'')\<rparr>)
    \<and> (bare = js ''README'' \<longrightarrow>
         allowListCheck lc ALLOWED_EXTENSIONS_AND_FILENAMES np = \<lparr>ignore = False, reason = None\<rparr>)
    \<and> (bare = js ''NOTES'' \<longrightarrow>
         allowListCheck lc ALLOWED_EXTENSIONS_AND_FILENAMES np =
           \<lparr>ignore = True,
            reason = Some (js ''No extension and 'NOTES' not in allowed filenames list'')\<rparr>)"
proof -
  have stage: "fileSize \<le> MAX_FILE_SIZE_BYTES \<and> replaceBackslashes filePath = np
          \<and> find (matchesPattern lc np) IGNORED_PATTERNS = None \<longrightarrow>
          shouldIgnoreFile lc filePath fileSize =
            allowListCheck lc ALLOWED_EXTENSIONS_AND_FILENAMES np"
    by (auto simp: shouldIgnoreFile_def shouldIgnoreFileWith_def)
  have bare: "BARE_FILENAME np = bare"
    using assms BARE_FILENAME_plain BARE_FILENAME_dir by blast
  have nodot: "DOT \<notin> set bare \<longrightarrow> EXTENSION lc bare = []"
    by (simp add: EXTENSION_none)
  have lastdot: "\<forall>stem e. bare = stem @ DOT # e \<and> DOT \<notin> set e \<longrightarrow> EXTENSION lc bare = lc (DOT # e)"
    by (auto simp: EXTENSION_last_dot)
  have rule: "allowListCheck lc ALLOWED_EXTENSIONS_AND_FILENAMES np =
        (if bare \<in> set ALLOWED_EXTENSIONS_AND_FILENAMES
            \<or> EXTENSION lc bare \<in> set ALLOWED_EXTENSIONS_AND_FILENAMES
         then \<lparr>ignore = False, reason = None\<rparr>
         else if EXTENSION lc bare = []
         then \<lparr>ignore = True,
               reason = Some (js ''No extension and '' @ [QUOTE] @ bare @ [QUOTE]
                              @ js '' not in allowed filenames list'')\<rparr>
         else \<lparr>ignore = True,
               reason = Some (js ''Extension '' @ [QUOTE] @ EXTENSION lc bare @ [QUOTE]
                              @ js '' not in allowed list'')\<rparr>)"
    using allowListCheck_cases [of lc ALLOWED_EXTENSIONS_AND_FILENAMES np] bare by simp
  have readme: "bare = js ''README'' \<longrightarrow>
         allowListCheck lc ALLOWED_EXTENSIONS_AND_FILENAMES np = \<lparr>ignore = False, reason = None\<rparr>"
    using rule README_allowed by simp
  have notes_case: "bare = js ''NOTES'' \<longrightarrow>
         allowListCheck lc ALLOWED_EXTENSIONS_AND_FILENAMES np =
           \<lparr>ignore = True,
            reason = Some (js ''No extension and 'NOTES' not in allowed filenames list'')\<rparr>"
  proof
    assume n: "bare = js ''NOTES''"
    then have "EXTENSION lc bare = []"
      using NOTES_no_dot EXTENSION_none by simp
    then show "allowListCheck lc ALLOWED_EXTENSIONS_AND_FILENAMES np =
           \<lparr>ignore = True,
            reason = Some (js ''No extension and 'NOTES' not in allowed filenames list'')\<rparr>"
      using rule n NOTES_not_allowed empty_not_allowed
      by (simp add: js_def QUOTE_def)
  qed
  show ?thesis
    using stage bare nodot lastdot rule readme notes_case by blast
qed

lemma no_pattern_matches_README:
  "find (matchesPattern asciiLower (js ''src/README'')) IGNORED_PATTERNS = None"
  by (simp add: IGNORED_PATTERNS_def matchesPattern_def startsWith_def endsWith_def includes_str_def
        js_def asciiLower_def substring_def sublist_code(3) suffix_to_prefix)

theorem allow_list_check_witness:
  "shouldIgnoreFile asciiLower (js ''src/README'') 30 = \<lparr>ignore = False, reason = None\<rparr>
   \<and> allowListCheck asciiLower ALLOWED_EXTENSIONS_AND_FILENAMES (js ''NOTES'') =
       \<lparr>ignore = True,
        reason = Some (js ''No extension and 'NOTES' not in allowed filenames list'')\<rparr>
   \<and> allowListCheck asciiLower ALLOWED_EXTENSIONS_AND_FILENAMES (js ''docs/photo.XYZ'') =
       \<lparr>ignore = True, reason = Some (js ''Extension '.xyz' not in allowed list'')\<rparr>"
proof -
  have readme: "shouldIgnoreFile asciiLower (js ''src/README'') 30 = \<lparr>ignore = False, reason = None\<rparr>"
  proof -
    have "SLASH \<notin> set (js ''README'')"
      by (simp add: js_def SLASH_def)
    moreover have "js ''src/README'' = js ''src'' @ SLASH # js ''README''"
      by (simp add: js_def SLASH_def)
    moreover have "30 \<le> MAX_FILE_SIZE_BYTES"
      by (simp add: MAX_FILE_SIZE_BYTES_def)
    moreover have "replaceBackslashes (js ''src/README'') = js ''src/README''"
      by (simp add: replaceBackslashes_def js_def BACKSLASH_def)
    ultimately show ?thesis
      using allow_list_check [of "js ''README''" "js ''src/README''" "js ''src''" 30
                                 "js ''src/README''" asciiLower]
            no_pattern_matches_README
      by metis
  qed
  have notes_plain: "allowListCheck asciiLower ALLOWED_EXTENSIONS_AND_FILENAMES (js ''NOTES'') =
       \<lparr>ignore = True,
        reason = Some (js ''No extension and 'NOTES' not in allowed filenames list'')\<rparr>"
  proof -
    have "SLASH \<notin> set (js ''NOTES'')"
      by (simp add: js_def SLASH_def)
    then show ?thesis
      using allow_list_check [of "js ''NOTES''" "js ''NOTES''" "[]" 0 "[]" asciiLower]
      by metis
  qed
  have photo: "allowListCheck asciiLower ALLOWED_EXTENSIONS_AND_FILENAMES (js ''docs/photo.XYZ'') =
       \<lparr>ignore = True, reason = Some (js ''Extension '.xyz' not in allowed list'')\<rparr>"
  proof -
    have noslash: "SLASH \<notin> set (js ''photo.XYZ'')"
      by (simp add: js_def SLASH_def)
    have split: "js ''docs/photo.XYZ'' = js ''docs'' @ SLASH # js ''photo.XYZ''"
      by (simp add: js_def SLASH_def)
    have parts: "js ''photo.XYZ'' = js ''photo'' @ DOT # js ''XYZ'' \<and> DOT \<notin> set (js ''XYZ'')"
      by (simp add: js_def DOT_def)
    have lower: "asciiLower (DOT # js ''XYZ'') = js ''.xyz''"
      by (simp add: asciiLower_def js_def DOT_def)
    have facts: "BARE_FILENAME (js ''docs/photo.XYZ'') = js ''photo.XYZ''
        \<and> EXTENSION asciiLower (js ''photo.XYZ'') = js ''.xyz''"
      using allow_list_check [of "js ''photo.XYZ''" "js ''docs/photo.XYZ''" "js ''docs''" 0 "[]" asciiLower]
            noslash split parts lower
      by metis
    have out: "js ''photo.XYZ'' \<notin> set ALLOWED_EXTENSIONS_AND_FILENAMES
        \<and> js ''.xyz'' \<notin> set ALLOWED_EXTENSIONS_AND_FILENAMES"
      by (simp add: ALLOWED_EXTENSIONS_AND_FILENAMES_def js_def)
    show ?thesis
      using facts out allowListCheck_cases [of asciiLower ALLOWED_EXTENSIONS_AND_FILENAMES "js ''docs/photo.XYZ''"]
      by (simp add: js_def QUOTE_def)
  qed
  show ?thesis
    using readme notes_plain photo by blast
qed

lemma no_pattern_matches_Cargo_lock:
  "find (matchesPattern asciiLower (js ''Cargo.lock'')) IGNORED_PATTERNS = None"
  by (simp add: IGNORED_PATTERNS_def matchesPattern_def startsWith_def endsWith_def includes_str_def
        js_def asciiLower_def substring_def sublist_code(3) suffix_to_prefix)

text \<open>
  C6 as stated does not hold for every file with an extension: the bare filename is tried
  first, so \<^verbatim>\<open>Cargo.lock\<close>, whose extension \<^verbatim>\<open>.lock\<close> is not in the allow-list, is accepted
  as a filename of the list.
\<close>

theorem dotted_filename_counterexample:
  "BARE_FILENAME (js ''Cargo.lock'') = js ''Cargo.lock''
   \<and> EXTENSION asciiLower (js ''Cargo.lock'') = js ''.lock''
   \<and> js ''.lock'' \<notin> set ALLOWED_EXTENSIONS_AND_FILENAMES
   \<and> allowListCheck asciiLower ALLOWED_EXTENSIONS_AND_FILENAMES (js ''Cargo.lock'') =
       \<lparr>ignore = False, reason = None\<rparr>
   \<and> shouldIgnoreFile asciiLower (js ''Cargo.lock'') 100 = \<lparr>ignore = False, reason = None\<rparr>"
proof -
  have "SLASH \<notin> set (js ''Cargo.lock'')"
    by (simp add: js_def SLASH_def)
  then have bare: "BARE_FILENAME (js ''Cargo.lock'') = js ''Cargo.lock''"
    by (rule BARE_FILENAME_plain)
  have "DOT \<notin> set (js ''lock'')" and "js ''Cargo.lock'' = js ''Cargo'' @ DOT # js ''lock''"
    by (simp_all add: js_def DOT_def)
  then have "EXTENSION asciiLower (js ''Cargo.lock'') = asciiLower (DOT # js ''lock'')"
    using EXTENSION_last_dot by metis
  also have "\<dots> = js ''.lock''"
    by (simp add: asciiLower_def js_def DOT_def)
  finally have ext: "EXTENSION asciiLower (js ''Cargo.lock'') = js ''.lock''" .
  have out: "js ''.lock'' \<notin> set ALLOWED_EXTENSIONS_AND_FILENAMES"
    by (simp add: ALLOWED_EXTENSIONS_AND_FILENAMES_def js_def)
  have "js ''Cargo.lock'' \<in> set ALLOWED_EXTENSIONS_AND_FILENAMES"
    by (simp add: ALLOWED_EXTENSIONS_AND_FILENAMES_def)
  then have check: "allowListCheck asciiLower ALLOWED_EXTENSIONS_AND_FILENAMES (js ''Cargo.lock'') =
       \<lparr>ignore = False, reason = None\<rparr>"
    using bare by (simp add: allowListCheck_cases)
  have "replaceBackslashes (js ''Cargo.lock'') = js ''Cargo.lock''"
    by (simp add: replaceBackslashes_def js_def BACKSLASH_def)
  with check no_pattern_matches_Cargo_lock
  have "shouldIgnoreFile asciiLower (js ''Cargo.lock'') 100 = \<lparr>ignore = False, reason = None\<rparr>"
    by (simp add: shouldIgnoreFile_def shouldIgnoreFileWith_def MAX_FILE_SIZE_BYTES_def)
  with bare ext out check show ?thesis
    by blast
qed

lemma final_segment_wrapped:
  assumes "np = name \<or> np = dir @ SLASH # name"
  shows "includes_str (js ''/'' @ np @ js ''/'') (SLASH # name @ [SLASH])"
proof -
  have slash: "js ''/'' = [SLASH]"
    by (simp add: js_def SLASH_def)
  from assms have "js ''/'' @ np @ js ''/'' = [] @ (SLASH # name @ [SLASH]) @ []
      \<or> js ''/'' @ np @ js ''/'' = (SLASH # dir) @ (SLASH # name @ [SLASH]) @ []"
    by (auto simp: slash)
  then show ?thesis
    unfolding includes_str_def sublist_def by blast
qed

lemma directory_pattern_test:
  "startsWith p (js ''/'') \<Longrightarrow> endsWith p (js ''/'') \<Longrightarrow>
   matchesPattern lc np p = includes_str (js ''/'' @ np @ js ''/'') p"
  by (simp add: matchesPattern_def)

lemma first_six_patterns:
  "\<exists>rest. IGNORED_PATTERNS =
     js ''/.git/'' # js ''/node_modules/'' # js ''/venv/'' # js ''/.venv/'' # js ''/env/''
     # js ''/.env/'' # rest"
  by (simp add: IGNORED_PATTERNS_def)

lemma first_six_tests:
  "matchesPattern lc np (js ''/.git/'') = includes_str (js ''/'' @ np @ js ''/'') (js ''/.git/'')"
  "matchesPattern lc np (js ''/node_modules/'') = includes_str (js ''/'' @ np @ js ''/'') (js ''/node_modules/'')"
  "matchesPattern lc np (js ''/venv/'') = includes_str (js ''/'' @ np @ js ''/'') (js ''/venv/'')"
  "matchesPattern lc np (js ''/.venv/'') = includes_str (js ''/'' @ np @ js ''/'') (js ''/.venv/'')"
  "matchesPattern lc np (js ''/env/'') = includes_str (js ''/'' @ np @ js ''/'') (js ''/env/'')"
  "matchesPattern lc np (js ''/.env/'') = includes_str (js ''/'' @ np @ js ''/'') (js ''/.env/'')"
  by (rule directory_pattern_test;
      simp add: js_def startsWith_def endsWith_def suffix_to_prefix)+

lemma env_pattern_texts:
  "SLASH # js ''env'' @ [SLASH] = js ''/env/''" "SLASH # js ''.env'' @ [SLASH] = js ''/.env/''"
  by (simp_all add: js_def SLASH_def)

text \<open>
  C10, as amended. The path is wrapped in slashes before the substring test, so the
  directory pattern \<^verbatim>\<open>/name/\<close> also matches a path whose final segment is \<^verbatim>\<open>name\<close>, at
  the root or below any directory. A file named exactly \<^verbatim>\<open>env\<close> or \<^verbatim>\<open>.env\<close> of at most
  2 MiB is therefore skipped with the reason \<^verbatim>\<open>Matches ignore pattern: \<close> followed by the
  first pattern of the list that matches the path: \<^verbatim>\<open>/.git/\<close>, \<^verbatim>\<open>/node_modules/\<close>,
  \<^verbatim>\<open>/venv/\<close>, \<^verbatim>\<open>/.venv/\<close> or \<^verbatim>\<open>/env/\<close>, tried in that order, when the slash-wrapped path
  contains it, and \<^verbatim>\<open>/.env/\<close> otherwise.
\<close>

theorem final_segment_matches_directory_pattern:
  assumes "replaceBackslashes filePath = name
           \<or> replaceBackslashes filePath = dir @ SLASH # name"
  shows "matchesPattern lc (replaceBackslashes filePath) (SLASH # name @ [SLASH])
    \<and> ((name = js ''env'' \<or> name = js ''.env'') \<and> fileSize \<le> MAX_FILE_SIZE_BYTES \<longrightarrow>
        shouldIgnoreFile lc filePath fileSize =
          \<lparr>ignore = True,
           reason = Some (js ''Matches ignore pattern: '' @
             (if includes_str (js ''/'' @ replaceBackslashes filePath @ js ''/'') (js ''/.git/'')
              then js ''/.git/''
              else if includes_str (js ''/'' @ replaceBackslashes filePath @ js ''/'') (js ''/node_modules/'')
              then js ''/node_modules/''
              else if includes_str (js ''/'' @ replaceBackslashes filePath @ js ''/'') (js ''/venv/'')
              then js ''/venv/''
              else if includes_str (js ''/'' @ replaceBackslashes filePath @ js ''/'') (js ''/.venv/'')
              then js ''/.venv/''
              else if includes_str (js ''/'' @ replaceBackslashes filePath @ js ''/'') (js ''/env/'')
              then js ''/env/''
              else js ''/.env/''))\<rparr>)"
proof -
  let ?np = "replaceBackslashes filePath"
  let ?W = "\<lambda>p. includes_str (js ''/'' @ ?np @ js ''/'') p"
  let ?first = "if ?W (js ''/.git/'') then js ''/.git/''
                else if ?W (js ''/node_modules/'') then js ''/node_modules/''
                else if ?W (js ''/venv/'') then js ''/venv/''
                else if ?W (js ''/.venv/'') then js ''/.venv/''
                else if ?W (js ''/env/'') then js ''/env/''
                else js ''/.env/''"
  have wrapped: "?W (SLASH # name @ [SLASH])"
    using final_segment_wrapped [OF assms] .
  then have matches: "matchesPattern lc ?np (SLASH # name @ [SLASH])"
    by (simp add: directory_pattern)
  have skipped: "shouldIgnoreFile lc filePath fileSize =
          \<lparr>ignore = True, reason = Some (js ''Matches ignore pattern: '' @ ?first)\<rparr>"
    if name: "name = js ''env'' \<or> name = js ''.env''" and small: "fileSize \<le> MAX_FILE_SIZE_BYTES"
  proof -
    from name wrapped have one: "?W (js ''/env/'') \<or> ?W (js ''/.env/'')"
      using env_pattern_texts by metis
    obtain rest where pats: "IGNORED_PATTERNS =
        js ''/.git/'' # js ''/node_modules/'' # js ''/venv/'' # js ''/.venv/'' # js ''/env/''
        # js ''/.env/'' # rest"
      using first_six_patterns by blast
    have "find (matchesPattern lc ?np) IGNORED_PATTERNS = Some ?first"
      using one by (auto simp: pats first_six_tests)
    then show ?thesis
      using small by (simp add: shouldIgnoreFile_def shouldIgnoreFileWith_def)
  qed
  from matches skipped show ?thesis
    by blast
qed

theorem final_segment_matches_directory_pattern_witness:
  "replaceBackslashes (js ''config/.env'') = js ''config'' @ SLASH # js ''.env''
   \<and> replaceBackslashes (js ''venv/.env'') = js ''venv'' @ SLASH # js ''.env''
   \<and> 100 \<le> MAX_FILE_SIZE_BYTES
   \<and> matchesPattern asciiLower (js ''config/.env'') (js ''/.env/'')
   \<and> shouldIgnoreFile asciiLower (js ''config/.env'') 100 =
       \<lparr>ignore = True, reason = Some (js ''Matches ignore pattern: /.env/'')\<rparr>
   \<and> shouldIgnoreFile asciiLower (js ''venv/.env'') 100 =
       \<lparr>ignore = True, reason = Some (js ''Matches ignore pattern: /venv/'')\<rparr>"
proof -
  have np: "replaceBackslashes (js ''config/.env'') = js ''config'' @ SLASH # js ''.env''"
    by (simp add: replaceBackslashes_def js_def BACKSLASH_def SLASH_def)
  have np2: "replaceBackslashes (js ''venv/.env'') = js ''venv'' @ SLASH # js ''.env''"
    by (simp add: replaceBackslashes_def js_def BACKSLASH_def SLASH_def)
  have small: "100 \<le> MAX_FILE_SIZE_BYTES"
    by (simp add: MAX_FILE_SIZE_BYTES_def)
  have same: "js ''config'' @ SLASH # js ''.env'' = js ''config/.env''"
    by (simp add: js_def SLASH_def)
  have tests: "\<not> includes_str (js ''/'' @ js ''config/.env'' @ js ''/'') (js ''/.git/'')"
      "\<not> includes_str (js ''/'' @ js ''config/.env'' @ js ''/'') (js ''/node_modules/'')"
      "\<not> includes_str (js ''/'' @ js ''config/.env'' @ js ''/'') (js ''/venv/'')"
      "\<not> includes_str (js ''/'' @ js ''config/.env'' @ js ''/'') (js ''/.venv/'')"
      "\<not> includes_str (js ''/'' @ js ''config/.env'' @ js ''/'') (js ''/env/'')"
    by (simp_all add: includes_str_def js_def sublist_code(3))
  have tests2: "\<not> includes_str (js ''/'' @ js ''venv/.env'' @ js ''/'') (js ''/.git/'')"
      "\<not> includes_str (js ''/'' @ js ''venv/.env'' @ js ''/'') (js ''/node_modules/'')"
      "includes_str (js ''/'' @ js ''venv/.env'' @ js ''/'') (js ''/venv/'')"
    by (simp_all add: includes_str_def js_def sublist_code(3))
  note inst = final_segment_matches_directory_pattern
               [of "js ''config/.env''" "js ''.env''" "js ''config''" asciiLower 100, OF disjI2 [OF np]]
  note inst2 = final_segment_matches_directory_pattern
               [of "js ''venv/.env''" "js ''.env''" "js ''venv''" asciiLower 100, OF disjI2 [OF np2]]
  from inst [THEN conjunct1] have m: "matchesPattern asciiLower (js ''config/.env'') (js ''/.env/'')"
    by (simp add: np same env_pattern_texts)
  from inst [THEN conjunct2] small
  have a: "shouldIgnoreFile asciiLower (js ''config/.env'') 100 =
       \<lparr>ignore = True, reason = Some (js ''Matches ignore pattern: /.env/'')\<rparr>"
    by (simp add: np same tests) (simp add: js_def)
  have b: "shouldIgnoreFile asciiLower (js ''venv/.env'') 100 =
       \<lparr>ignore = True, reason = Some (js ''Matches ignore pattern: /venv/'')\<rparr>"
  proof -
    have same2: "js ''venv'' @ SLASH # js ''.env'' = js ''venv/.env''"
      by (simp add: js_def SLASH_def)
    from inst2 [THEN conjunct2] small show ?thesis
      by (simp add: np2 same2 tests2) (simp add: js_def)
  qed
  from np np2 small m a b show ?thesis
    by blast
qed

text \<open>
  C10 as stated does not hold for every such file: the size test comes first, so a file
  named \<^verbatim>\<open>.env\<close> of 3 MiB is skipped with the size reason.
\<close>

theorem env_file_oversize_counterexample:
  "replaceBackslashes (js ''.env'') = js ''.env''
   \<and> shouldIgnoreFile asciiLower (js ''.env'') 3145728 =
       \<lparr>ignore = True, reason = Some (js ''File size 3MB > 2MB limit'')\<rparr>"
proof -
  have "replaceBackslashes (js ''.env'') = js ''.env''"
    by (simp add: replaceBackslashes_def js_def BACKSLASH_def)
  then show ?thesis
    using three_MiB oversize_decision [of 3145728 asciiLower]
    by (simp add: shouldIgnoreFile_def js_def)
qed

section \<open>Properties of the review request\<close>

lemma classifyFailure_not_empty_message:
  "classifyFailure lc e \<noteq>
     js ''No files were provided for review. Please select a project with reviewable files.''"
  by (cases e) (simp_all add: classifyFailure_def js_def)

text \<open>
  C3, as amended. With an API key configured, a call of \<^verbatim>\<open>getProjectReviewFeedback\<close> with
  an empty file list fails with the message \<^verbatim>\<open>No files were provided for review\<close> and makes
  no request to the service, whatever the project name and the service are: the prompt is
  not needed to produce the failure. No failure of the service is ever reported under that
  message.
\<close>

theorem empty_file_list_rejected:
  assumes "API_KEY = Some key" and "key \<noteq> []"
  shows "getProjectReviewFeedback lc API_KEY generateContent [] projectName =
           \<lparr>outcome = Inl (js ''No files were provided for review. Please select a project with reviewable files.''),
            requests = []\<rparr>
    \<and> (\<forall>e. classifyFailure lc e \<noteq>
          js ''No files were provided for review. Please select a project with reviewable files.'')"
  using assms classifyFailure_not_empty_message
  by (simp add: getProjectReviewFeedback_def)

theorem empty_file_list_rejected_witness:
  "getProjectReviewFeedback asciiLower (Some (js ''key'')) echoService [] (js ''demo'') =
     \<lparr>outcome = Inl (js ''No files were provided for review. Please select a project with reviewable files.''),
      requests = []\<rparr>"
proof -
  have "js ''key'' \<noteq> []"
    by (simp add: js_def)
  from empty_file_list_rejected [OF refl this, of asciiLower echoService "js ''demo''"]
  show ?thesis by simp
qed

text \<open>
  C3 as stated does not hold in every environment: the key test comes first, so without
  an API key the empty list is answered with the configuration message.
\<close>

theorem empty_file_list_without_key_counterexample:
  "getProjectReviewFeedback asciiLower None echoService [] (js ''demo'') =
     \<lparr>outcome = Inl (js ''Gemini API key is not configured. Please set the API_KEY environment variable.''),
      requests = []\<rparr>
   \<and> js ''Gemini API key is not configured. Please set the API_KEY environment variable.'' \<noteq>
     js ''No files were provided for review. Please select a project with reviewable files.''"
  by (simp add: getProjectReviewFeedback_def js_def)

lemma utf8Length_ascii: "\<forall>c \<in> set s. c < 0x80 \<Longrightarrow> utf8Length s = length s"
  by (induction s) auto

lemma decimal_3711: "decimal 3711 = js ''3711''"
  by (simp add: decimal.simps [of 3711] decimal.simps [of 371] decimal.simps [of 37]
        decimal_digit js_def)

lemma limit_KB: "toFixedKB MAX_CONTENT_LENGTH_BYTES = js ''3711''"
  by (simp add: toFixedKB_def MAX_CONTENT_LENGTH_BYTES_def decimal_3711)

lemma one_byte_over_KB: "n = MAX_CONTENT_LENGTH_BYTES + 1 \<Longrightarrow> toFixedKB n = js ''3711''"
  by (simp add: toFixedKB_def MAX_CONTENT_LENGTH_BYTES_def decimal_3711)

lemma asciiFile_blob_length:
  "utf8Length (combinedContent (js ''p'') [asciiFile n]) = 71 + n"
proof -
  have "\<forall>c \<in> set (combinedContent (js ''p'') [asciiFile n]). c < 0x80"
    by (auto simp: combinedContent_def fileBlock_def asciiFile_def js_def NL_def)
  then have "utf8Length (combinedContent (js ''p'') [asciiFile n])
             = length (combinedContent (js ''p'') [asciiFile n])"
    by (rule utf8Length_ascii)
  also have "\<dots> = 71 + n"
    by (simp add: combinedContent_def fileBlock_def asciiFile_def js_def)
  finally show ?thesis .
qed

text \<open>
  C4, as amended. With an API key configured and a non-empty file list: when the UTF-8
  size of the assembled blob exceeds 3,800,000 bytes, the call fails with the
  payload-too-large message and makes no request; the message prints the measured size and
  the limit, both in KB and rounded (\<open>3711 KB\<close> for the limit, and also for a blob exactly
  one byte over). When the size is at most 3,800,000 bytes, in particular one byte under,
  exactly one request is made, with the blob as its contents.
\<close>

theorem payload_ceiling:
  assumes "API_KEY = Some key" and "key \<noteq> []" and "files \<noteq> []"
  shows "(MAX_CONTENT_LENGTH_BYTES < utf8Length (combinedContent projectName files) \<longrightarrow>
            getProjectReviewFeedback lc API_KEY generateContent files projectName =
              \<lparr>outcome = Inl (js ''The project content (''
                              @ toFixedKB (utf8Length (combinedContent projectName files))
                              @ js '' KB) is too large and exceeds the processing limit of 3711 KB. Please try with a smaller project or select fewer files.''),
               requests = []\<rparr>)
    \<and> (utf8Length (combinedContent projectName files) = MAX_CONTENT_LENGTH_BYTES + 1 \<longrightarrow>
            getProjectReviewFeedback lc API_KEY generateContent files projectName =
              \<lparr>outcome = Inl (js ''The project content (3711 KB) is too large and exceeds the processing limit of 3711 KB. Please try with a smaller project or select fewer files.''),
               requests = []\<rparr>)
    \<and> (utf8Length (combinedContent projectName files) \<le> MAX_CONTENT_LENGTH_BYTES \<longrightarrow>
            getProjectReviewFeedback lc API_KEY generateContent files projectName =
              (case generateContent (combinedContent projectName files) of
                 Responds text \<Rightarrow>
                   \<lparr>outcome = Inr text, requests = [combinedContent projectName files]\<rparr>
               | Rejects e \<Rightarrow>
                   \<lparr>outcome = Inl (classifyFailure lc e),
                    requests = [combinedContent projectName files]\<rparr>))"
proof -
  let ?blob = "combinedContent projectName files"
  have over: "getProjectReviewFeedback lc API_KEY generateContent files projectName =
              \<lparr>outcome = Inl (js ''The project content ('' @ toFixedKB (utf8Length ?blob)
                              @ js '' KB) is too large and exceeds the processing limit of 3711 KB. Please try with a smaller project or select fewer files.''),
               requests = []\<rparr>"
    if "MAX_CONTENT_LENGTH_BYTES < utf8Length ?blob"
    using that assms
    by (simp add: getProjectReviewFeedback_def Let_def limit_KB js_def)
  have one_over: "getProjectReviewFeedback lc API_KEY generateContent files projectName =
              \<lparr>outcome = Inl (js ''The project content (3711 KB) is too large and exceeds the processing limit of 3711 KB. Please try with a smaller project or select fewer files.''),
               requests = []\<rparr>"
    if "utf8Length ?blob = MAX_CONTENT_LENGTH_BYTES + 1"
  proof -
    from that have "MAX_CONTENT_LENGTH_BYTES < utf8Length ?blob"
      by simp
    from over [OF this] one_byte_over_KB [OF that] show ?thesis
      by (simp add: js_def)
  qed
  have under: "getProjectReviewFeedback lc API_KEY generateContent files projectName =
              (case generateContent ?blob of
                 Responds text \<Rightarrow> \<lparr>outcome = Inr text, requests = [?blob]\<rparr>
               | Rejects e \<Rightarrow> \<lparr>outcome = Inl (classifyFailure lc e), requests = [?blob]\<rparr>)"
    if "utf8Length ?blob \<le> MAX_CONTENT_LENGTH_BYTES"
    using that assms
    by (simp add: getProjectReviewFeedback_def Let_def)
  from over one_over under show ?thesis
    by blast
qed

theorem payload_ceiling_witness:
  "utf8Length (combinedContent (js ''p'') [asciiFile 3799930]) = MAX_CONTENT_LENGTH_BYTES + 1
   \<and> getProjectReviewFeedback asciiLower (Some (js ''key'')) echoService [asciiFile 3799930] (js ''p'') =
       \<lparr>outcome = Inl (js ''The project content (3711 KB) is too large and exceeds the processing limit of 3711 KB. Please try with a smaller project or select fewer files.''),
        requests = []\<rparr>
   \<and> utf8Length (combinedContent (js ''p'') [asciiFile 3799928]) + 1 = MAX_CONTENT_LENGTH_BYTES
   \<and> getProjectReviewFeedback asciiLower (Some (js ''key'')) echoService [asciiFile 3799928] (js ''p'') =
       \<lparr>outcome = Inr (combinedContent (js ''p'') [asciiFile 3799928]),
        requests = [combinedContent (js ''p'') [asciiFile 3799928]]\<rparr>"
proof -
  have key: "js ''key'' \<noteq> []"
    by (simp add: js_def)
  have big: "utf8Length (combinedContent (js ''p'') [asciiFile 3799930]) = MAX_CONTENT_LENGTH_BYTES + 1"
    by (simp add: asciiFile_blob_length MAX_CONTENT_LENGTH_BYTES_def)
  have small: "utf8Length (combinedContent (js ''p'') [asciiFile 3799928]) + 1 = MAX_CONTENT_LENGTH_BYTES"
    by (simp add: asciiFile_blob_length MAX_CONTENT_LENGTH_BYTES_def)
  then have le: "utf8Length (combinedContent (js ''p'') [asciiFile 3799928]) \<le> MAX_CONTENT_LENGTH_BYTES"
    by simp
  have one: "[asciiFile 3799930] \<noteq> []" and two: "[asciiFile 3799928] \<noteq> []"
    by simp_all
  from payload_ceiling [OF refl key one, of "js ''p''" asciiLower echoService] big
  have a: "getProjectReviewFeedback asciiLower (Some (js ''key'')) echoService [asciiFile 3799930] (js ''p'') =
       \<lparr>outcome = Inl (js ''The project content (3711 KB) is too large and exceeds the processing limit of 3711 KB. Please try with a smaller project or select fewer files.''),
        requests = []\<rparr>"
    by blast
  from payload_ceiling [OF refl key two, of "js ''p''" asciiLower echoService] le
  have b: "getProjectReviewFeedback asciiLower (Some (js ''key'')) echoService [asciiFile 3799928] (js ''p'') =
       \<lparr>outcome = Inr (combinedContent (js ''p'') [asciiFile 3799928]),
        requests = [combinedContent (js ''p'') [asciiFile 3799928]]\<rparr>"
    by (simp add: echoService_def)
  from big a small b show ?thesis
    by blast
qed

text \<open>
  C4 as stated does not hold in every environment: the key test comes first, so without
  an API key a blob one byte over the ceiling is answered with the configuration message.
\<close>

theorem payload_without_key_counterexample:
  "[asciiFile 3799930] \<noteq> []
   \<and> utf8Length (combinedContent (js ''p'') [asciiFile 3799930]) = MAX_CONTENT_LENGTH_BYTES + 1
   \<and> getProjectReviewFeedback asciiLower None echoService [asciiFile 3799930] (js ''p'') =
       \<lparr>outcome = Inl (js ''Gemini API key is not configured. Please set the API_KEY environment variable.''),
        requests = []\<rparr>"
  by (simp add: asciiFile_blob_length MAX_CONTENT_LENGTH_BYTES_def getProjectReviewFeedback_def)

section \<open>Properties of the selection handler\<close>

lemma projectFiles_processFile:
  "projectFiles (processFile lc st file) =
     projectFiles st @ (case acceptedFile lc file of Some pf \<Rightarrow> [pf] | None \<Rightarrow> [])"
  by (simp add: processFile_def acceptedFile_def Let_def split: option.splits)

lemma projectFiles_processFiles:
  "projectFiles (processFiles lc files st) = projectFiles st @ List.map_filter (acceptedFile lc) files"
proof (induction files arbitrary: st)
  case Nil
  then show ?case by simp
next
  case (Cons f fs)
  then show ?case
    by (simp add: projectFiles_processFile split: option.splits)
qed

lemma acceptedFile_path: "acceptedFile lc file = Some pf \<Longrightarrow> path pf = filePathOf file"
  by (auto simp: acceptedFile_def split: if_splits option.splits)

lemma map_filter_as_map:
  "List.map_filter f xs = map (\<lambda>x. the (f x)) (filter (\<lambda>x. f x \<noteq> None) xs)"
  by (simp add: List.map_filter_def)

lemma subseq_paths_map_filter:
  "subseq (map path (List.map_filter (acceptedFile lc) files)) (map filePathOf files)"
proof (induction files)
  case Nil
  then show ?case by simp
next
  case (Cons f fs)
  then show ?case
    by (auto simp: acceptedFile_path split: option.splits)
qed

lemma subseq_take: "subseq (take n xs) xs"
  by (metis append_take_drop_id prefix_def prefix_imp_subseq)

lemma counts_processFile:
  "processedFileCount (processFile lc st f) + skippedFileCount (processFile lc st f) =
     processedFileCount st + skippedFileCount st + 1"
  by (simp add: processFile_def Let_def split: option.splits)

lemma counts_processFiles:
  "processedFileCount (processFiles lc fs st) + skippedFileCount (processFiles lc fs st) =
     processedFileCount st + skippedFileCount st + length fs"
proof (induction fs arbitrary: st)
  case Nil
  then show ?case by simp
next
  case (Cons f fs)
  then show ?case
    using counts_processFile [of lc st f] by simp
qed

lemma decimal_500: "decimal MAX_TOTAL_FILES = js ''500''"
  by (simp add: MAX_TOTAL_FILES_def decimal.simps [of 500] decimal.simps [of 50] decimal_digit js_def)

lemma loopState_handleFileChange:
  "loopState (handleFileChange lc (Some files)) =
     processFiles lc (take MAX_TOTAL_FILES files) initialLoopState"
  by (cases files) (simp_all add: handleFileChange_def Let_def)

lemma selectedFiles_handleFileChange:
  "selectedFiles (handleFileChange lc (Some files)) =
     projectFiles (processFiles lc (take MAX_TOTAL_FILES files) initialLoopState)"
  by (cases files) (simp_all add: handleFileChange_def Let_def initialLoopState_def)

lemma sum_countReason: "sum_list (map snd (countReason r m)) = sum_list (map snd m) + 1"
  unfolding countReason_def
  by (induction m) (auto split: option.splits)

lemma ignored_has_reason:
  assumes "ignore (shouldIgnoreFile lc filePath fileSize)"
  shows "\<exists>r. reason (shouldIgnoreFile lc filePath fileSize) = Some r \<and> r \<noteq> []"
  using assms
  by (auto simp: shouldIgnoreFile_def shouldIgnoreFileWith_def allowListCheck_def Let_def js_def
           split: if_splits option.splits)

lemma skipped_step:
  assumes "acceptedFile lc f = None"
  shows "\<exists>r. r \<noteq> [] \<and> processFile lc st f =
           st\<lparr>skippedFileCount := skippedFileCount st + 1,
              skippedReasons := countReason r (skippedReasons st)\<rparr>"
proof (cases "ignore (shouldIgnoreFile lc (filePathOf f) (file_size f))")
  case True
  with ignored_has_reason obtain r
    where "reason (shouldIgnoreFile lc (filePathOf f) (file_size f)) = Some r" "r \<noteq> []"
    by blast
  with True show ?thesis
    by (auto simp: processFile_def Let_def)
next
  case False
  with assms have "file_text f = None"
    by (auto simp: acceptedFile_def split: option.splits)
  with False have "processFile lc st f =
           st\<lparr>skippedFileCount := skippedFileCount st + 1,
              skippedReasons := countReason (js ''Could not read as text (binary?)'') (skippedReasons st)\<rparr>"
    by (simp add: processFile_def Let_def)
  moreover have "js ''Could not read as text (binary?)'' \<noteq> []"
    by (simp add: js_def)
  ultimately show ?thesis
    by blast
qed

lemma ledger_total_processFile:
  "sum_list (map snd (skippedReasons (processFile lc st f))) - skippedFileCount (processFile lc st f)
     = sum_list (map snd (skippedReasons st)) - skippedFileCount st
   \<and> (skippedFileCount st \<le> sum_list (map snd (skippedReasons st)) \<longrightarrow>
        skippedFileCount (processFile lc st f) \<le> sum_list (map snd (skippedReasons (processFile lc st f))))"
proof (cases "acceptedFile lc f")
  case None
  from skipped_step [OF this, of st] obtain r where
    "processFile lc st f = st\<lparr>skippedFileCount := skippedFileCount st + 1,
              skippedReasons := countReason r (skippedReasons st)\<rparr>"
    by blast
  then show ?thesis
    by (simp add: sum_countReason)
next
  case (Some pf)
  then show ?thesis
    by (auto simp: processFile_def acceptedFile_def Let_def split: if_splits option.splits)
qed

lemma ledger_total_processFiles:
  "sum_list (map snd (skippedReasons st)) = skippedFileCount st \<Longrightarrow>
   sum_list (map snd (skippedReasons (processFiles lc fs st))) = skippedFileCount (processFiles lc fs st)"
proof (induction fs arbitrary: st)
  case Nil
  then show ?case by simp
next
  case (Cons f fs)
  have "sum_list (map snd (skippedReasons (processFile lc st f))) = skippedFileCount (processFile lc st f)"
    using ledger_total_processFile [of lc st f] Cons.prems by auto
  then show ?case
    using Cons.IH by simp
qed

lemma no_pattern_matches_a_ts:
  "find (matchesPattern asciiLower (js ''src/a.ts'')) IGNORED_PATTERNS = None"
  by (simp add: IGNORED_PATTERNS_def matchesPattern_def startsWith_def endsWith_def includes_str_def
        js_def asciiLower_def substring_def sublist_code(3) suffix_to_prefix)

lemma no_pattern_matches_root_README:
  "find (matchesPattern asciiLower (js ''README'')) IGNORED_PATTERNS = None"
  by (simp add: IGNORED_PATTERNS_def matchesPattern_def startsWith_def endsWith_def includes_str_def
        js_def asciiLower_def substring_def sublist_code(3) suffix_to_prefix)

lemma unchanged_paths:
  "replaceBackslashes (js ''src/a.ts'') = js ''src/a.ts''
   \<and> replaceBackslashes (js ''README'') = js ''README''
   \<and> replaceBackslashes (js ''node_modules/x/y.js'') = js ''node_modules/x/y.js''"
  by (simp add: replaceBackslashes_def js_def BACKSLASH_def)

lemma decision_README:
  "shouldIgnoreFile asciiLower (js ''README'') 30 = \<lparr>ignore = False, reason = None\<rparr>"
proof -
  have "SLASH \<notin> set (js ''README'')"
    by (simp add: js_def SLASH_def)
  then have "BARE_FILENAME (js ''README'') = js ''README''"
    by (rule BARE_FILENAME_plain)
  then have "allowListCheck asciiLower ALLOWED_EXTENSIONS_AND_FILENAMES (js ''README'')
             = \<lparr>ignore = False, reason = None\<rparr>"
    using README_allowed by (simp add: allowListCheck_cases)
  then show ?thesis
    using no_pattern_matches_root_README unchanged_paths
    by (simp add: shouldIgnoreFile_def shouldIgnoreFileWith_def MAX_FILE_SIZE_BYTES_def)
qed

lemma decision_a_ts:
  "shouldIgnoreFile asciiLower (js ''src/a.ts'') 120 = \<lparr>ignore = False, reason = None\<rparr>"
proof -
  have "SLASH \<notin> set (js ''a.ts'')" and "js ''src/a.ts'' = js ''src'' @ SLASH # js ''a.ts''"
    by (simp_all add: js_def SLASH_def)
  then have bare: "BARE_FILENAME (js ''src/a.ts'') = js ''a.ts''"
    using BARE_FILENAME_dir by metis
  have "DOT \<notin> set (js ''ts'')" and "js ''a.ts'' = js ''a'' @ DOT # js ''ts''"
    by (simp_all add: js_def DOT_def)
  then have "EXTENSION asciiLower (js ''a.ts'') = asciiLower (DOT # js ''ts'')"
    using EXTENSION_last_dot by metis
  also have "\<dots> = js ''.ts''"
    by (simp add: asciiLower_def js_def DOT_def)
  finally have ext: "EXTENSION asciiLower (js ''a.ts'') = js ''.ts''" .
  have "js ''.ts'' \<in> set ALLOWED_EXTENSIONS_AND_FILENAMES"
    by (simp add: ALLOWED_EXTENSIONS_AND_FILENAMES_def)
  then have "allowListCheck asciiLower ALLOWED_EXTENSIONS_AND_FILENAMES (js ''src/a.ts'')
             = \<lparr>ignore = False, reason = None\<rparr>"
    using bare ext by (simp add: allowListCheck_cases)
  then show ?thesis
    using no_pattern_matches_a_ts unchanged_paths
    by (simp add: shouldIgnoreFile_def shouldIgnoreFileWith_def MAX_FILE_SIZE_BYTES_def)
qed

lemma decision_dependency:
  "shouldIgnoreFile asciiLower (js ''node_modules/x/y.js'') 50 =
     \<lparr>ignore = True, reason = Some (js ''Matches ignore pattern: /node_modules/'')\<rparr>"
proof -
  have "find (matchesPattern asciiLower (js ''node_modules/x/y.js'')) IGNORED_PATTERNS
        = Some (js ''/node_modules/'')"
    by (simp add: IGNORED_PATTERNS_def matchesPattern_def startsWith_def endsWith_def
          includes_str_def js_def sublist_code(3) suffix_to_prefix)
  then show ?thesis
    using unchanged_paths
    by (simp add: shouldIgnoreFile_def shouldIgnoreFileWith_def MAX_FILE_SIZE_BYTES_def js_def)
qed

lemma scenario_loop:
  "processFiles asciiLower scenarioFiles initialLoopState =
     \<lparr>projectFiles = [\<lparr>path = js ''src/a.ts'', content = js ''export {}''\<rparr>,
                      \<lparr>path = js ''README'', content = js ''Read me first.''\<rparr>],
      processedFileCount = 2,
      skippedFileCount = 1,
      skippedReasons = [(js ''Matches ignore pattern: /node_modules/'', 1)]\<rparr>"
proof -
  have paths: "js ''src/a.ts'' \<noteq> [] \<and> js ''node_modules/x/y.js'' \<noteq> []
      \<and> js ''Matches ignore pattern: /node_modules/'' \<noteq> []"
    by (simp add: js_def)
  show ?thesis
    using paths
    by (simp add: scenarioFiles_def initialLoopState_def processFile_def filePathOf_def
          decision_a_ts decision_dependency decision_README countReason_def)
qed

lemma scenario_selected:
  "selectedFiles (handleFileChange asciiLower (Some scenarioFiles)) =
     [\<lparr>path = js ''src/a.ts'', content = js ''export {}''\<rparr>,
      \<lparr>path = js ''README'', content = js ''Read me first.''\<rparr>]"
proof -
  have "take MAX_TOTAL_FILES scenarioFiles = scenarioFiles"
    by (simp add: scenarioFiles_def MAX_TOTAL_FILES_def)
  then show ?thesis
    by (simp add: selectedFiles_handleFileChange scenario_loop)
qed

lemma length_manyFiles: "length (manyFiles n) = n"
  by (simp add: manyFiles_def)

lemma decimal_501: "decimal 501 = js ''501''"
  by (simp add: decimal.simps [of 501] decimal.simps [of 50] decimal_digit js_def)

text \<open>
  C8. The files handed to \<^verbatim>\<open>onFilesSelected\<close> are the accepted ones among the input, in
  the order of the input: they are the images of a subsequence of the input list, and
  their paths form a subsequence of the paths of the input. The result is a function of
  the input list (and of the outcome of reading each file), so the same input gives the
  same result.
\<close>

theorem accepted_files_keep_input_order:
  "(\<exists>kept. subseq kept files
       \<and> (\<forall>file \<in> set kept. acceptedFile lc file \<noteq> None)
       \<and> selectedFiles (handleFileChange lc (Some files)) =
           map (\<lambda>file. \<lparr>path = filePathOf file, content = the (file_text file)\<rparr>) kept)
   \<and> subseq (map path (selectedFiles (handleFileChange lc (Some files)))) (map filePathOf files)
   \<and> selectedFiles (handleFileChange lc None) = []"
proof -
  let ?kept = "filter (\<lambda>file. acceptedFile lc file \<noteq> None) (take MAX_TOTAL_FILES files)"
  have sel: "selectedFiles (handleFileChange lc (Some files)) =
               List.map_filter (acceptedFile lc) (take MAX_TOTAL_FILES files)"
    by (cases files)
       (simp_all add: handleFileChange_def Let_def projectFiles_processFiles initialLoopState_def)
  have "subseq ?kept files"
    using subseq_take subseq_filter_left subseq_order.order_trans by blast
  moreover have "\<forall>file \<in> set ?kept. acceptedFile lc file \<noteq> None"
    by simp
  moreover have "selectedFiles (handleFileChange lc (Some files)) =
           map (\<lambda>file. \<lparr>path = filePathOf file, content = the (file_text file)\<rparr>) ?kept"
  proof -
    have "map (\<lambda>x. the (acceptedFile lc x)) ?kept
          = map (\<lambda>file. \<lparr>path = filePathOf file, content = the (file_text file)\<rparr>) ?kept"
      by (rule map_cong) (auto simp: acceptedFile_def split: if_splits option.splits)
    then show ?thesis
      by (simp add: sel map_filter_as_map)
  qed
  moreover have "subseq (map path (selectedFiles (handleFileChange lc (Some files)))) (map filePathOf files)"
  proof -
    have "subseq (map path (List.map_filter (acceptedFile lc) (take MAX_TOTAL_FILES files)))
                 (map filePathOf (take MAX_TOTAL_FILES files))"
      by (rule subseq_paths_map_filter)
    moreover have "subseq (map filePathOf (take MAX_TOTAL_FILES files)) (map filePathOf files)"
      by (simp add: subseq_take subseq_map)
    ultimately show ?thesis
      using sel subseq_order.order_trans by fastforce
  qed
  moreover have "selectedFiles (handleFileChange lc None) = []"
    by (simp add: handleFileChange_def)
  ultimately show ?thesis
    by blast
qed

theorem accepted_files_keep_input_order_witness:
  "selectedFiles (handleFileChange asciiLower (Some scenarioFiles)) =
     [\<lparr>path = js ''src/a.ts'', content = js ''export {}''\<rparr>,
      \<lparr>path = js ''README'', content = js ''Read me first.''\<rparr>]
   \<and> subseq [js ''src/a.ts'', js ''README'']
             [js ''src/a.ts'', js ''node_modules/x/y.js'', js ''README'']"
proof -
  have paths: "map filePathOf scenarioFiles = [js ''src/a.ts'', js ''node_modules/x/y.js'', js ''README'']"
    by (simp add: scenarioFiles_def filePathOf_def js_def)
  from accepted_files_keep_input_order [of scenarioFiles asciiLower]
  have "subseq (map path (selectedFiles (handleFileChange asciiLower (Some scenarioFiles))))
               (map filePathOf scenarioFiles)"
    by blast
  then have "subseq [js ''src/a.ts'', js ''README'']
             [js ''src/a.ts'', js ''node_modules/x/y.js'', js ''README'']"
    by (simp only: scenario_selected paths list.map ProjectFile.select_convs)
  with scenario_selected show ?thesis
    by blast
qed

text \<open>
  C7. Of a selection of more than 500 files only the first 500, in input order, go through
  the loop: the accepted files, the counters and the reason table are those of the first
  500 alone, so the remaining files are neither accepted nor counted under any reason, and
  the counters add up to 500. The truncation is reported with the size of the whole
  selection, always on the console and, when at least one file was accepted, in the error
  text of the component.
\<close>

theorem total_count_cap:
  assumes "MAX_TOTAL_FILES < length files"
  shows "selectedFiles (handleFileChange lc (Some files)) =
           selectedFiles (handleFileChange lc (Some (take MAX_TOTAL_FILES files)))
    \<and> loopState (handleFileChange lc (Some files)) =
           loopState (handleFileChange lc (Some (take MAX_TOTAL_FILES files)))
    \<and> loopState (handleFileChange lc (Some files)) =
           processFiles lc (take MAX_TOTAL_FILES files) initialLoopState
    \<and> processedFileCount (loopState (handleFileChange lc (Some files)))
        + skippedFileCount (loopState (handleFileChange lc (Some files))) = MAX_TOTAL_FILES
    \<and> consoleWarn (handleFileChange lc (Some files)) =
         [js ''Too many files selected ('' @ decimal (length files)
          @ js ''). Processing the first 500.'']
    \<and> (selectedFiles (handleFileChange lc (Some files)) \<noteq> [] \<longrightarrow>
         errorText (handleFileChange lc (Some files)) =
           Some (js ''Processing the first 500 files out of '' @ decimal (length files)
                 @ js ''. Some files were ignored.''))"
proof -
  from assms have nonempty: "files \<noteq> []"
    by auto
  have sel: "selectedFiles (handleFileChange lc (Some files)) =
           selectedFiles (handleFileChange lc (Some (take MAX_TOTAL_FILES files)))"
    by (simp add: selectedFiles_handleFileChange)
  have loop: "loopState (handleFileChange lc (Some files)) =
           loopState (handleFileChange lc (Some (take MAX_TOTAL_FILES files)))"
    by (simp add: loopState_handleFileChange)
  have count: "processedFileCount (loopState (handleFileChange lc (Some files)))
        + skippedFileCount (loopState (handleFileChange lc (Some files))) = MAX_TOTAL_FILES"
    using assms counts_processFiles [of lc "take MAX_TOTAL_FILES files" initialLoopState]
    by (simp add: loopState_handleFileChange initialLoopState_def min_def)
  have warn: "consoleWarn (handleFileChange lc (Some files)) =
         [js ''Too many files selected ('' @ decimal (length files)
          @ js ''). Processing the first 500.'']"
    using assms nonempty
    by (simp add: handleFileChange_def Let_def decimal_500 js_def)
  have err: "errorText (handleFileChange lc (Some files)) =
           Some (js ''Processing the first 500 files out of '' @ decimal (length files)
                 @ js ''. Some files were ignored.'')"
    if "selectedFiles (handleFileChange lc (Some files)) \<noteq> []"
    using assms nonempty that
    by (simp add: handleFileChange_def Let_def decimal_500 js_def)
  from sel loop count warn err show ?thesis
    by (simp add: loopState_handleFileChange)
qed

theorem total_count_cap_witness:
  "MAX_TOTAL_FILES < length (manyFiles 501)
   \<and> selectedFiles (handleFileChange asciiLower (Some (manyFiles 501))) =
       selectedFiles (handleFileChange asciiLower (Some (take MAX_TOTAL_FILES (manyFiles 501))))
   \<and> processedFileCount (loopState (handleFileChange asciiLower (Some (manyFiles 501))))
       + skippedFileCount (loopState (handleFileChange asciiLower (Some (manyFiles 501)))) = 500
   \<and> consoleWarn (handleFileChange asciiLower (Some (manyFiles 501))) =
       [js ''Too many files selected (501). Processing the first 500.'']"
proof -
  have many: "MAX_TOTAL_FILES < length (manyFiles 501)"
    by (simp add: length_manyFiles MAX_TOTAL_FILES_def)
  note inst = total_count_cap [OF many, of asciiLower]
  note same = inst [THEN conjunct1]
  have count: "processedFileCount (loopState (handleFileChange asciiLower (Some (manyFiles 501))))
       + skippedFileCount (loopState (handleFileChange asciiLower (Some (manyFiles 501)))) = 500"
    using inst [THEN conjunct2, THEN conjunct2, THEN conjunct2, THEN conjunct1]
    by (simp only: MAX_TOTAL_FILES_def)
  have warn: "consoleWarn (handleFileChange asciiLower (Some (manyFiles 501))) =
       [js ''Too many files selected (501). Processing the first 500.'']"
    using inst [THEN conjunct2, THEN conjunct2, THEN conjunct2, THEN conjunct2, THEN conjunct1]
    by (simp add: length_manyFiles decimal_501 js_def)
  from many same count warn show ?thesis
    by blast
qed

text \<open>
  A read that fails. A file that passed the filter and whose \<^verbatim>\<open>text()\<close> promise rejects is
  counted as skipped under the reason \<^verbatim>\<open>Could not read as text (binary?)\<close> and the loop
  goes on: the accepted files are those of the same selection without that file. Every
  round that accepts nothing adds one to the skip counter and one to the count of exactly
  one non-empty reason, so the counts of the reason table add up to the number of skipped
  files, and accepted and skipped files together are the files that went through the loop.
\<close>

lemma rejected_read_skipped_alone:
  assumes "\<not> ignore (shouldIgnoreFile lc (filePathOf f) (file_size f))"
    and "file_text f = None"
  shows "processFile lc st f =
           st\<lparr>skippedFileCount := skippedFileCount st + 1,
              skippedReasons :=
                countReason (js ''Could not read as text (binary?)'') (skippedReasons st)\<rparr>
    \<and> projectFiles (processFiles lc (before @ f # after) st) =
        projectFiles (processFiles lc (before @ after) st)
    \<and> (length (before @ f # after) \<le> MAX_TOTAL_FILES \<longrightarrow>
         selectedFiles (handleFileChange lc (Some (before @ f # after))) =
         selectedFiles (handleFileChange lc (Some (before @ after))))
    \<and> (\<forall>g st'. acceptedFile lc g = None \<longrightarrow>
         (\<exists>r. r \<noteq> [] \<and> processFile lc st' g =
            st'\<lparr>skippedFileCount := skippedFileCount st' + 1,
                skippedReasons := countReason r (skippedReasons st')\<rparr>))
    \<and> sum_list (map snd (skippedReasons (loopState (handleFileChange lc (Some files))))) =
        skippedFileCount (loopState (handleFileChange lc (Some files)))
    \<and> processedFileCount (loopState (handleFileChange lc (Some files)))
        + skippedFileCount (loopState (handleFileChange lc (Some files))) =
        min (length files) MAX_TOTAL_FILES"
proof -
  have step: "processFile lc st f =
           st\<lparr>skippedFileCount := skippedFileCount st + 1,
              skippedReasons :=
                countReason (js ''Could not read as text (binary?)'') (skippedReasons st)\<rparr>"
    using assms by (simp add: processFile_def Let_def)
  have none: "acceptedFile lc f = None"
    using assms by (simp add: acceptedFile_def)
  have same: "projectFiles (processFiles lc (before @ f # after) st') =
        projectFiles (processFiles lc (before @ after) st')" for st'
    using none by (simp add: projectFiles_processFiles List.map_filter_def)
  have capped: "selectedFiles (handleFileChange lc (Some (before @ f # after))) =
         selectedFiles (handleFileChange lc (Some (before @ after)))"
    if "length (before @ f # after) \<le> MAX_TOTAL_FILES"
    using that same [of initialLoopState]
    by (simp add: selectedFiles_handleFileChange)
  have each: "\<forall>g st'. acceptedFile lc g = None \<longrightarrow>
         (\<exists>r. r \<noteq> [] \<and> processFile lc st' g =
            st'\<lparr>skippedFileCount := skippedFileCount st' + 1,
                skippedReasons := countReason r (skippedReasons st')\<rparr>)"
    using skipped_step by blast
  have total: "sum_list (map snd (skippedReasons (loopState (handleFileChange lc (Some files))))) =
        skippedFileCount (loopState (handleFileChange lc (Some files)))"
    by (simp add: loopState_handleFileChange ledger_total_processFiles initialLoopState_def)
  have count: "processedFileCount (loopState (handleFileChange lc (Some files)))
        + skippedFileCount (loopState (handleFileChange lc (Some files))) =
        min (length files) MAX_TOTAL_FILES"
    using counts_processFiles [of lc "take MAX_TOTAL_FILES files" initialLoopState]
    by (simp add: loopState_handleFileChange initialLoopState_def)
  from step same capped each total count show ?thesis
    by blast
qed

lemma rejected_read_skipped_alone_example:
  "\<not> ignore (shouldIgnoreFile asciiLower (filePathOf unreadableFile) (file_size unreadableFile))
   \<and> file_text unreadableFile = None
   \<and> processFile asciiLower initialLoopState unreadableFile =
       \<lparr>projectFiles = [], processedFileCount = 0, skippedFileCount = 1,
        skippedReasons = [(js ''Could not read as text (binary?)'', 1)]\<rparr>
   \<and> projectFiles (processFiles asciiLower (unreadableFile # scenarioFiles) initialLoopState) =
       projectFiles (processFiles asciiLower scenarioFiles initialLoopState)"
proof -
  have passes: "\<not> ignore (shouldIgnoreFile asciiLower (filePathOf unreadableFile) (file_size unreadableFile))"
    by (simp add: unreadableFile_def filePathOf_def decision_README)
  have rejects: "file_text unreadableFile = None"
    by (simp add: unreadableFile_def)
  note inst = rejected_read_skipped_alone [OF passes rejects, of initialLoopState "[]" scenarioFiles "[]"]
  from inst [THEN conjunct1] have "processFile asciiLower initialLoopState unreadableFile =
       \<lparr>projectFiles = [], processedFileCount = 0, skippedFileCount = 1,
        skippedReasons = [(js ''Could not read as text (binary?)'', 1)]\<rparr>"
    by (simp add: initialLoopState_def countReason_def)
  moreover from inst [THEN conjunct2, THEN conjunct1]
  have "projectFiles (processFiles asciiLower (unreadableFile # scenarioFiles) initialLoopState) =
       projectFiles (processFiles asciiLower scenarioFiles initialLoopState)"
    by (simp only: append_Nil)
  ultimately show ?thesis
    using passes rejects by blast
qed

lemma decision_small_README:
  "shouldIgnoreFile asciiLower (js ''README'') 3 = \<lparr>ignore = False, reason = None\<rparr>"
proof -
  have "SLASH \<notin> set (js ''README'')"
    by (simp add: js_def SLASH_def)
  then have "BARE_FILENAME (js ''README'') = js ''README''"
    by (rule BARE_FILENAME_plain)
  then have "allowListCheck asciiLower ALLOWED_EXTENSIONS_AND_FILENAMES (js ''README'')
             = \<lparr>ignore = False, reason = None\<rparr>"
    using README_allowed by (simp add: allowListCheck_cases)
  then show ?thesis
    using no_pattern_matches_root_README unchanged_paths
    by (simp add: shouldIgnoreFile_def shouldIgnoreFileWith_def MAX_FILE_SIZE_BYTES_def)
qed

text \<open>
  C9. The loop does not do this for a file whose bytes are not text. The promise of
  \<^verbatim>\<open>text()\<close> rejects only when the file cannot be read; bytes that are not UTF-8 are decoded
  with U+FFFD in place of what cannot be decoded, and the promise is fulfilled. A README
  of the three bytes \<^verbatim>\<open>ff fe 41\<close> therefore leaves the \<^verbatim>\<open>try\<close> block as an accepted file with
  the content U+FFFD U+FFFD \<^verbatim>\<open>A\<close>, and nothing is counted under the reason
  \<^verbatim>\<open>Could not read as text (binary?)\<close>, which the \<^verbatim>\<open>catch\<close> block keeps for such a file.
\<close>

theorem undecodable_file_is_accepted:
  "handleFileChange asciiLower (Some [undecodableFile]) =
     \<lparr>selectedFiles = [\<lparr>path = js ''README'', content = [0xFFFD, 0xFFFD, 0x41]\<rparr>],
      selectedFolder = Some (js ''Selected_Files''),
      fileSummary = js ''1 file(s) collected.'',
      errorText = None,
      consoleWarn = [],
      loopState =
        \<lparr>projectFiles = [\<lparr>path = js ''README'', content = [0xFFFD, 0xFFFD, 0x41]\<rparr>],
         processedFileCount = 1,
         skippedFileCount = 0,
         skippedReasons = []\<rparr>\<rparr>"
proof -
  have loop: "processFile asciiLower initialLoopState undecodableFile =
        \<lparr>projectFiles = [\<lparr>path = js ''README'', content = [0xFFFD, 0xFFFD, 0x41]\<rparr>],
         processedFileCount = 1,
         skippedFileCount = 0,
         skippedReasons = []\<rparr>"
    by (simp add: undecodableFile_def initialLoopState_def processFile_def filePathOf_def
          decision_small_README)
  have one: "decimal 1 = js ''1''" "decimal (Suc 0) = js ''1''"
    by (simp_all add: decimal_digit js_def)
  have first: "hd [undecodableFile] = undecodableFile" "file_webkitRelativePath undecodableFile = []"
    by (simp_all add: undecodableFile_def)
  show ?thesis
    by (simp add: handleFileChange_def Let_def MAX_TOTAL_FILES_def loop one first) (simp add: js_def)
qed

section \<open>Properties of the framing\<close>

lemma linesOf_nonempty: "linesOf s \<noteq> []"
  by (cases s) simp_all

lemma linesOf_single: "NL \<notin> set a \<Longrightarrow> linesOf a = [a]"
  by (induction a) auto

lemma linesOf_break: "linesOf (a @ NL # s) = linesOf a @ linesOf s"
proof (induction a)
  case Nil
  then show ?case by simp
next
  case (Cons c a)
  then show ?case
    using linesOf_nonempty [of a] by (cases "linesOf a") simp_all
qed

lemma linesOf_inject: "linesOf s = linesOf t \<Longrightarrow> s = t"
proof (induction s arbitrary: t)
  case Nil
  show ?case
  proof (cases t)
    case Nil
    then show ?thesis by simp
  next
    case (Cons d ds)
    with Nil linesOf_nonempty [of ds] show ?thesis
      by (simp split: if_splits)
  qed
next
  case (Cons c cs)
  show ?case
  proof (cases t)
    case Nil
    with Cons.prems linesOf_nonempty [of cs] show ?thesis
      by (simp split: if_splits)
  next
    case (Cons d ds)
    from linesOf_nonempty [of cs] obtain l ls where cs: "linesOf cs = l # ls"
      by (cases "linesOf cs") auto
    from linesOf_nonempty [of ds] obtain m ms where ds: "linesOf ds = m # ms"
      by (cases "linesOf ds") auto
    from Cons.prems Cons cs ds have "c = d \<and> linesOf cs = linesOf ds"
      by (simp split: if_splits)
    with Cons.IH Cons show ?thesis
      by simp
  qed
qed

lemma delimiter_no_break:
  "NL \<notin> set p \<Longrightarrow> NL \<notin> set (openingLine p) \<and> NL \<notin> set (closingLine p) \<and> NL \<notin> set (js ''```'')"
  by (simp add: openingLine_def closingLine_def js_def NL_def)

lemma fileBlock_split:
  "fileBlock f @ rest =
     openingLine (path f) @ NL # (js ''```'' @ NL # (content f @ NL # (js ''```'' @ NL #
       (closingLine (path f) @ NL # ([] @ NL # rest)))))"
  by (simp add: fileBlock_def openingLine_def closingLine_def)

lemma linesOf_fileBlock:
  assumes "NL \<notin> set (path f)"
  shows "linesOf (fileBlock f @ rest) =
           [openingLine (path f), js ''```''] @ linesOf (content f)
           @ [js ''```'', closingLine (path f), []] @ linesOf rest"
  using delimiter_no_break [OF assms]
  by (simp only: fileBlock_split linesOf_break) (simp add: linesOf_single)

lemma openingLine_inject: "openingLine p = openingLine q \<Longrightarrow> p = q"
  by (simp add: openingLine_def)

lemma fence_not_closing: "js ''```'' \<noteq> closingLine p"
  by (simp add: closingLine_def js_def)

lemma first_occurrence_split:
  "x \<notin> set u \<Longrightarrow> x \<notin> set v \<Longrightarrow> u @ x # r = v @ x # s \<Longrightarrow> u = v \<and> r = s"
proof (induction u arbitrary: v)
  case Nil
  then show ?case by (cases v) auto
next
  case (Cons a u)
  then show ?case by (cases v) auto
qed

lemma blocks_inject:
  assumes "\<forall>f \<in> set fs. framable f" and "\<forall>g \<in> set gs. framable g"
    and "concat (map fileBlock fs) = concat (map fileBlock gs)"
  shows "fs = gs"
  using assms
proof (induction fs arbitrary: gs)
  case Nil
  then show ?case
    by (cases gs) (simp_all add: fileBlock_def js_def)
next
  case (Cons f fs)
  show ?case
  proof (cases gs)
    case Nil
    with Cons.prems(3) show ?thesis
      by (simp add: fileBlock_def js_def)
  next
    case (Cons g gs')
    let ?F = "concat (map fileBlock fs)" and ?G = "concat (map fileBlock gs')"
    from Cons.prems(1) have f: "NL \<notin> set (path f)" "closingLine (path f) \<notin> set (linesOf (content f))"
      by (simp_all add: framable_def)
    from Cons.prems(2) Cons have g: "NL \<notin> set (path g)" "closingLine (path g) \<notin> set (linesOf (content g))"
      by (simp_all add: framable_def)
    from Cons.prems(3) Cons have "linesOf (fileBlock f @ ?F) = linesOf (fileBlock g @ ?G)"
      by simp
    then have lines: "[openingLine (path f), js ''```''] @ linesOf (content f)
           @ [js ''```'', closingLine (path f), []] @ linesOf ?F
         = [openingLine (path g), js ''```''] @ linesOf (content g)
           @ [js ''```'', closingLine (path g), []] @ linesOf ?G"
      by (simp only: linesOf_fileBlock [OF f(1)] linesOf_fileBlock [OF g(1)])
    then have "openingLine (path f) = openingLine (path g)"
      by simp
    then have same_path: "path f = path g"
      by (rule openingLine_inject)
    let ?C = "closingLine (path f)"
    from lines same_path have eq:
      "(linesOf (content f) @ [js ''```'']) @ ?C # ([] # linesOf ?F)
       = (linesOf (content g) @ [js ''```'']) @ ?C # ([] # linesOf ?G)"
      by simp
    have notf: "?C \<notin> set (linesOf (content f) @ [js ''```''])"
      using f(2) fence_not_closing [of "path f"] by auto
    have notg: "?C \<notin> set (linesOf (content g) @ [js ''```''])"
      using g(2) same_path fence_not_closing [of "path f"] by auto
    from eq have "linesOf (content f) @ [js ''```''] = linesOf (content g) @ [js ''```'']
        \<and> [] # linesOf ?F = [] # linesOf ?G"
      by (rule first_occurrence_split [OF notf notg])
    then have "linesOf (content f) = linesOf (content g)" and "linesOf ?F = linesOf ?G"
      by simp_all
    then have same_content: "content f = content g" and rest: "?F = ?G"
      by (simp_all add: linesOf_inject)
    from same_path same_content have "f = g"
      by simp
    moreover from Cons.IH [of gs'] Cons.prems(1,2) Cons rest have "fs = gs'"
      by simp
    ultimately show ?thesis
      using Cons by simp
  qed
qed

text \<open>
  C5, as amended. Among the lists of files in which no path contains a line break and no
  line of a content is the closing delimiter line of its own file
  (\<^verbatim>\<open>--- End of File: <path> ---\<close>), the blob assembled for a project name determines the
  list: two such lists with the same blob are the same ordered list of (path, content)
  pairs, so there is a function that splits every such blob back into exactly the pairs
  it was assembled from.
\<close>

theorem framing_determines_files:
  "(\<forall>fs gs. (\<forall>f \<in> set fs. framable f) \<and> (\<forall>g \<in> set gs. framable g)
       \<and> combinedContent projectName fs = combinedContent projectName gs \<longrightarrow> fs = gs)
   \<and> (\<exists>split. \<forall>fs. (\<forall>f \<in> set fs. framable f) \<longrightarrow>
          split (combinedContent projectName fs) = fs)"
proof -
  let ?S = "{fs. \<forall>f \<in> set fs. framable f}"
  have inj: "fs = gs"
    if "\<forall>f \<in> set fs. framable f" and "\<forall>g \<in> set gs. framable g"
      and "combinedContent projectName fs = combinedContent projectName gs" for fs gs
  proof -
    from that(3) have "concat (map fileBlock fs) = concat (map fileBlock gs)"
      by (simp add: combinedContent_def)
    with that(1,2) show ?thesis
      by (rule blocks_inject)
  qed
  then have "inj_on (combinedContent projectName) ?S"
    by (simp add: inj_on_def)
  then have "\<forall>fs. (\<forall>f \<in> set fs. framable f) \<longrightarrow>
          inv_into ?S (combinedContent projectName) (combinedContent projectName fs) = fs"
    by simp
  then have "\<exists>split. \<forall>fs. (\<forall>f \<in> set fs. framable f) \<longrightarrow>
          split (combinedContent projectName fs) = fs"
    by blast
  with inj show ?thesis
    by blast
qed

theorem framing_determines_files_witness:
  "framable \<lparr>path = js ''a.txt'', content = js ''x''\<rparr>
   \<and> framable \<lparr>path = js ''a.txt'', content = js ''x'' @ [NL] @ js ''y''\<rparr>
   \<and> combinedContent (js ''p'') [\<lparr>path = js ''a.txt'', content = js ''x''\<rparr>]
       \<noteq> combinedContent (js ''p'') [\<lparr>path = js ''a.txt'', content = js ''x'' @ [NL] @ js ''y''\<rparr>]"
proof -
  have one: "framable \<lparr>path = js ''a.txt'', content = js ''x''\<rparr>"
    by (simp add: framable_def closingLine_def js_def NL_def)
  have two: "framable \<lparr>path = js ''a.txt'', content = js ''x'' @ [NL] @ js ''y''\<rparr>"
    by (simp add: framable_def closingLine_def js_def NL_def)
  have differ: "[\<lparr>path = js ''a.txt'', content = js ''x''\<rparr>]
                \<noteq> [\<lparr>path = js ''a.txt'', content = js ''x'' @ [NL] @ js ''y''\<rparr>]"
    by (simp add: js_def)
  have "combinedContent (js ''p'') [\<lparr>path = js ''a.txt'', content = js ''x''\<rparr>]
       \<noteq> combinedContent (js ''p'') [\<lparr>path = js ''a.txt'', content = js ''x'' @ [NL] @ js ''y''\<rparr>]"
  proof
    assume same: "combinedContent (js ''p'') [\<lparr>path = js ''a.txt'', content = js ''x''\<rparr>]
       = combinedContent (js ''p'') [\<lparr>path = js ''a.txt'', content = js ''x'' @ [NL] @ js ''y''\<rparr>]"
    from framing_determines_files [of "js ''p''", THEN conjunct1, rule_format,
           of "[\<lparr>path = js ''a.txt'', content = js ''x''\<rparr>]"
              "[\<lparr>path = js ''a.txt'', content = js ''x'' @ [NL] @ js ''y''\<rparr>]"]
         one two same
    have "[\<lparr>path = js ''a.txt'', content = js ''x''\<rparr>]
          = [\<lparr>path = js ''a.txt'', content = js ''x'' @ [NL] @ js ''y''\<rparr>]"
      by simp
    with differ show False
      by contradiction
  qed
  with one two show ?thesis
    by blast
qed

text \<open>
  C5 as stated does not hold for arbitrary contents: the content is copied verbatim, so a
  content that holds the delimiter lines moves the boundary between two files. The two
  lists below differ and are assembled to the same blob.
\<close>

theorem framing_collision_counterexample:
  "combinedContent (js ''p'')
     [\<lparr>path = js ''a.txt'', content = js ''x''\<rparr>,
      \<lparr>path = js ''b.txt'', content = js ''y'' @ embeddedBoundary @ js ''z''\<rparr>]
   = combinedContent (js ''p'')
     [\<lparr>path = js ''a.txt'', content = js ''x'' @ embeddedBoundary @ js ''y''\<rparr>,
      \<lparr>path = js ''b.txt'', content = js ''z''\<rparr>]
   \<and> [\<lparr>path = js ''a.txt'', content = js ''x''\<rparr>,
      \<lparr>path = js ''b.txt'', content = js ''y'' @ embeddedBoundary @ js ''z''\<rparr>]
   \<noteq> [\<lparr>path = js ''a.txt'', content = js ''x'' @ embeddedBoundary @ js ''y''\<rparr>,
      \<lparr>path = js ''b.txt'', content = js ''z''\<rparr>]"
  by (simp add: combinedContent_def fileBlock_def embeddedBoundary_def js_def)

end
